theory Spec2Isabelle
  imports Main "HOL-Library.Sublist" "HOL-Library.Word"
begin

chapter \<open>cert-monitor: cache, backoff, classification and the directory scan\<close>

text \<open>
  A shallow embedding of \<^verbatim>\<open>internal/cert/cert.go\<close>, \<^verbatim>\<open>internal/cache/cache.go\<close> and
  \<^verbatim>\<open>internal/scanner/scanner.go\<close>. Everything the Go code reads from outside itself is
  explicit: the operating system is a record of functions (\<open>filesystem\<close>), the standard
  library functions whose code is not part of the repository are the fields of \<open>stdlib\<close>,
  and the clock, the random source, the host name and the global configuration are the
  fields of \<open>env\<close>. Mutation is state passing over the record \<open>world\<close>; every write to
  the Prometheus registry, every log line, every \<^verbatim>\<open>os.ReadFile\<close> and every
  \<^verbatim>\<open>x509.ParseCertificate\<close> is appended to \<open>trace\<close> in program order.
\<close>

section \<open>Basic types\<close>

type_synonym byte = "8 word"
type_synonym bytes = "byte list"

text \<open>
  A \<^verbatim>\<open>time.Time\<close> is the instant it denotes, in nanoseconds since the Unix epoch;
  a \<^verbatim>\<open>time.Duration\<close> is an \<^verbatim>\<open>int64\<close> count of nanoseconds. \<^verbatim>\<open>Time.Sub\<close> saturates at
  the ends of the \<^verbatim>\<open>int64\<close> range, arithmetic on durations wraps around.
\<close>

type_synonym Time = int
type_synonym Duration = int

definition wrap64 :: "int \<Rightarrow> int" where
  "wrap64 x = (x + 2 ^ 63) mod 2 ^ 64 - 2 ^ 63"

definition sat64 :: "int \<Rightarrow> int" where
  "sat64 x = (if x < - (2 ^ 63) then - (2 ^ 63) else if x > 2 ^ 63 - 1 then 2 ^ 63 - 1 else x)"

definition Sub :: "Time \<Rightarrow> Time \<Rightarrow> Duration" where
  "Sub t u = sat64 (t - u)"

definition Add :: "Time \<Rightarrow> Duration \<Rightarrow> Time" where
  "Add t d = t + d"

definition After :: "Time \<Rightarrow> Time \<Rightarrow> bool" where
  "After t u = (t > u)"

definition Before :: "Time \<Rightarrow> Time \<Rightarrow> bool" where
  "Before t u = (t < u)"

definition Equal :: "Time \<Rightarrow> Time \<Rightarrow> bool" where
  "Equal t u = (t = u)"

definition Unix :: "Time \<Rightarrow> int" where
  "Unix t = t div 1000000000"

definition Second :: Duration where
  "Second = 1000000000"

definition Minute :: Duration where
  "Minute = 60 * Second"

definition Hour :: Duration where
  "Hour = 60 * Minute"

text \<open>
  Go errors. \<open>SkipDir\<close> and \<open>SkipAll\<close> are the two sentinel values of \<^verbatim>\<open>io/fs\<close>; every
  other error is its message.
\<close>

datatype error = SkipDir | SkipAll | Error string

section \<open>The functions of package strings and path/filepath that the code calls\<close>

text \<open>
  Go strings are byte sequences. The case mapping is the one of the ASCII letters; bytes
  outside \<open>A\<close>..\<open>Z\<close> are left as they are (the Unicode mappings of multi-byte runes are
  not modelled).
\<close>

definition upper_letters :: string where
  "upper_letters = ''ABCDEFGHIJKLMNOPQRSTUVWXYZ''"

definition lower_letters :: string where
  "lower_letters = ''abcdefghijklmnopqrstuvwxyz''"

definition lower_of :: "char \<Rightarrow> char option" where
  "lower_of = map_of (zip upper_letters lower_letters)"

definition lower_char :: "char \<Rightarrow> char" where
  "lower_char c = (case lower_of c of Some l \<Rightarrow> l | None \<Rightarrow> c)"

definition ToLower :: "string \<Rightarrow> string" where
  "ToLower s = map lower_char s"

text \<open>
  \<^verbatim>\<open>strings.EqualFold\<close> walks both strings in step; two bytes match when they are equal or
  when one is an upper-case letter and the other one its lower-case form.
\<close>

definition fold_eq :: "char \<Rightarrow> char \<Rightarrow> bool" where
  "fold_eq sr tr = (sr = tr \<or> lower_of sr = Some tr \<or> lower_of tr = Some sr)"

fun EqualFold :: "string \<Rightarrow> string \<Rightarrow> bool" where
  "EqualFold [] [] = True"
| "EqualFold (sr # s) (tr # t) = (fold_eq sr tr \<and> EqualFold s t)"
| "EqualFold _ _ = False"

fun Contains :: "string \<Rightarrow> string \<Rightarrow> bool" where
  "Contains [] substr = (substr = [])"
| "Contains (c # s) substr = (prefix substr (c # s) \<or> Contains s substr)"

definition isSpace :: "char \<Rightarrow> bool" where
  "isSpace c = (c \<in> set [CHR '' '', CHR 0x09, CHR 0x0A, CHR 0x0B, CHR 0x0C, CHR 0x0D])"

definition TrimSpace :: "string \<Rightarrow> string" where
  "TrimSpace s = rev (dropWhile isSpace (rev (dropWhile isSpace s)))"

fun Join_strings :: "string list \<Rightarrow> string \<Rightarrow> string" where
  "Join_strings [] sep = []"
| "Join_strings [a] sep = a"
| "Join_strings (a # b # elems) sep = a @ sep @ Join_strings (b # elems) sep"

text \<open>\<^verbatim>\<open>filepath.Ext\<close>: the suffix from the last dot of the last path element on.\<close>

definition Ext :: "string \<Rightarrow> string" where
  "Ext path =
     (let last_elem = takeWhile (\<lambda>c. c \<noteq> CHR ''/'') (rev path)
      in if CHR ''.'' \<in> set last_elem
         then CHR ''.'' # rev (takeWhile (\<lambda>c. c \<noteq> CHR ''.'') last_elem)
         else [])"

text \<open>\<^verbatim>\<open>filepath.Base\<close>: the last path element, trailing separators removed.\<close>

definition Base :: "string \<Rightarrow> string" where
  "Base path =
     (if path = [] then ''.''
      else let p = dropWhile (\<lambda>c. c = CHR ''/'') (rev path);
               b = rev (takeWhile (\<lambda>c. c \<noteq> CHR ''/'') p)
           in if b = [] then ''/'' else b)"

text \<open>\<^verbatim>\<open>fmt.Sprintf("%x", sig)\<close>: two lower-case hexadecimal digits for each byte.\<close>

definition hex_digit :: "nat \<Rightarrow> char" where
  "hex_digit n = ''0123456789abcdef'' ! (n mod 16)"

definition Sprintf_x :: "bytes \<Rightarrow> string" where
  "Sprintf_x bs = concat (map (\<lambda>b. [hex_digit (unat b div 16), hex_digit (unat b mod 16)]) bs)"

section \<open>Certificates and their classification (internal/cert/cert.go)\<close>

text \<open>
  The fields of \<^verbatim>\<open>x509.Certificate\<close> that the repository reads. The public key is the
  dynamic type of \<^verbatim>\<open>cert.PublicKey\<close>: an RSA key with its modulus \<open>N\<close>, an ECDSA key with
  the \<^verbatim>\<open>BitSize\<close> of its curve parameters, or any other key type.
\<close>

datatype PublicKey =
    rsa_PublicKey (N: nat)
  | ecdsa_PublicKey (BitSize: int)
  | other_PublicKey

datatype SignatureAlgorithm =
    UnknownSignatureAlgorithm
  | MD2WithRSA
  | MD5WithRSA
  | SHA1WithRSA
  | SHA256WithRSA
  | SHA384WithRSA
  | SHA512WithRSA
  | DSAWithSHA1
  | DSAWithSHA256
  | ECDSAWithSHA1
  | ECDSAWithSHA256
  | ECDSAWithSHA384
  | ECDSAWithSHA512
  | SHA256WithRSAPSS
  | SHA384WithRSAPSS
  | SHA512WithRSAPSS
  | PureEd25519

record Certificate =
  Raw :: bytes
  Subject_CommonName :: string
  Issuer_CommonName :: string
  NotBefore :: Time
  NotAfter :: Time
  DNSNames :: "string list"
  PublicKey :: PublicKey
  SignatureAlgorithm :: SignatureAlgorithm

text \<open>\<^verbatim>\<open>big.Int.BitLen\<close>: the number of bits of the absolute value, 0 for 0.\<close>

fun BitLen :: "nat \<Rightarrow> nat" where
  "BitLen n = (if n = 0 then 0 else Suc (BitLen (n div 2)))"

declare BitLen.simps [simp del]

definition DetermineIssuerCode :: "Certificate \<Rightarrow> int" where
  "DetermineIssuerCode cert =
     (if EqualFold (Subject_CommonName cert) (Issuer_CommonName cert) then 33
      else let issuerLower = ToLower (Issuer_CommonName cert)
           in if Contains issuerLower ''digicert'' then 30
              else if Contains issuerLower ''amazon'' then 31
              else 32)"

definition IsWeakKey :: "Certificate \<Rightarrow> bool" where
  "IsWeakKey cert =
     (case PublicKey cert of
        rsa_PublicKey n \<Rightarrow> BitLen n < 2048
      | ecdsa_PublicKey bitSize \<Rightarrow> bitSize < 256
      | other_PublicKey \<Rightarrow> False)"

definition IsDeprecatedSigAlg :: "SignatureAlgorithm \<Rightarrow> bool" where
  "IsDeprecatedSigAlg alg =
     (alg = SHA1WithRSA \<or> alg = DSAWithSHA1 \<or> alg = ECDSAWithSHA1 \<or> alg = MD5WithRSA)"

section \<open>Configuration (internal/config/config.go)\<close>

record Config =
  CertDirs :: "string list"
  LogFile :: string
  Port :: string
  BindAddress :: string
  NumWorkers :: int
  DryRun :: bool
  ExpiryThresholdDays :: int
  ClearCacheOnReload :: bool
  TLSCertFile :: string
  TLSKeyFile :: string
  EnablePprof :: bool
  EnableRuntimeMetrics :: bool
  EnableWeakCryptoMetrics :: bool
  CacheFile :: string
  ConfigFile :: string

section \<open>The operating system, the standard library and the environment\<close>

record FileInfo =
  info_ModTime :: Time
  info_Size :: int
  info_IsDir :: bool

text \<open>
  What \<^verbatim>\<open>filepath.WalkDir\<close> finds below a root: a directory entry has a name and a kind,
  and, for a directory, the result of \<^verbatim>\<open>os.ReadDir\<close> on it, which is the entries read
  and possibly an error (\<^verbatim>\<open>ReadDir\<close> returns the entries it could read before the error).
\<close>

datatype DirEntry =
  DirEntry (Name: string) (IsDir: bool) (ReadDir_err: "error option") (ReadDir_entries: "DirEntry list")

record filesystem =
  Stat :: "string \<Rightarrow> error + FileInfo"
  Lstat :: "string \<Rightarrow> error + DirEntry"
  ReadFile :: "string \<Rightarrow> error + bytes"
  MkdirAll :: "string \<Rightarrow> error option"
  WriteFile_err :: "string \<Rightarrow> error option"

text \<open>\<^verbatim>\<open>os.WriteFile\<close>: on success a later read of the path returns the data written.\<close>

definition WriteFile :: "string \<Rightarrow> bytes \<Rightarrow> filesystem \<Rightarrow> error option \<times> filesystem" where
  "WriteFile name content fs =
     (case WriteFile_err fs name of
        Some err \<Rightarrow> (Some err, fs)
      | None \<Rightarrow> (None, fs\<lparr>ReadFile := (ReadFile fs)(name := Inr content)\<rparr>))"

record pem_Block =
  Type :: string
  Bytes :: bytes

record CachedCertMeta =
  Fingerprint :: bytes
  ModTime :: Time
  Size :: int

text \<open>
  The library functions whose code is outside the repository. \<open>pem_Decode_all raw\<close> is
  the sequence of blocks that successive calls of \<^verbatim>\<open>pem.Decode\<close> return on \<open>raw\<close> and its
  remainders, up to the call that returns no block. \<open>json_Unmarshal\<close> takes the file
  content and the map it decodes into and returns the map after decoding.
\<close>

record stdlib =
  filepath_Join :: "string \<Rightarrow> string \<Rightarrow> string"
  filepath_Dir :: "string \<Rightarrow> string"
  pem_Decode_all :: "bytes \<Rightarrow> pem_Block list"
  x509_ParseCertificate :: "bytes \<Rightarrow> error + Certificate"
  sha256_Sum256 :: "bytes \<Rightarrow> bytes"
  json_MarshalIndent :: "(string \<rightharpoonup> CachedCertMeta) \<Rightarrow> error + bytes"
  json_Unmarshal :: "bytes \<Rightarrow> (string \<rightharpoonup> CachedCertMeta) \<Rightarrow> error + (string \<rightharpoonup> CachedCertMeta)"

text \<open>
  What one call reads from its surroundings: \<^verbatim>\<open>config.Get()\<close> (\<open>None\<close> is the nil
  pointer), the clock when the call starts (\<open>now\<close>) and when its deferred functions run
  (\<open>finish\<close>), the value of \<^verbatim>\<open>rand.Int63n(int64(10 * time.Second))\<close>, and the host name.
\<close>

record env =
  config_Get :: "Config option"
  now :: Time
  finish :: Time
  jitter :: Duration
  Hostname :: string

section \<open>Metrics (internal/metrics/metrics.go) and the trace of effects\<close>

definition MaxSANsExported :: nat where
  "MaxSANsExported = 10"

definition MaxLabelLength :: nat where
  "MaxLabelLength = 120"

text \<open>One constructor for each write to a metric that the scanner performs, with its labels.\<close>

datatype metric =
    CertExpiration_Set string string int
  | CertNotBefore_Set string string int
  | CertSANCount_Set string string int
  | CertInfo_Set string string string
  | CertIssuer_Set string string string
  | CertDuplicateCount_Set string string int
  | CertIssuerCode_Set string string int
  | CertExpiringSoon_Set string string string int
  | WeakKeyCounter_Inc string string
  | DeprecatedSigAlgCounter_Inc string string
  | CertParseErrors_Inc string
  | CertFilesTotal_Inc string
  | CertsParsedTotal_Inc string
  | CertLastScan_Set string int
  | CertScanDuration_Observe string Duration
  | LabelsTruncated_Inc

datatype level = Debug | Info | Warn

datatype event =
    Metric metric
  | Log level string
  | FileRead string
  | CertParse bytes

section \<open>The cache (internal/cache/cache.go)\<close>

record Cache =
  filePath :: string
  data :: "string \<rightharpoonup> CachedCertMeta"

record world =
  cache :: Cache
  backoff :: "string \<rightharpoonup> Time"
  fs :: filesystem
  trace :: "event list"

definition emit :: "event \<Rightarrow> world \<Rightarrow> world" where
  "emit e st = st\<lparr>trace := trace st @ [e]\<rparr>"

definition Load :: "stdlib \<Rightarrow> world \<Rightarrow> world" where
  "Load L st =
     (let c = cache st in
      if filePath c = [] then emit (Log Debug ''No cache file path specified, skipping cache load'') st
      else case ReadFile (fs st) (filePath c) of
        Inl err \<Rightarrow> emit (Log Info ''No existing cache file or read error'') st
      | Inr content \<Rightarrow>
          (case json_Unmarshal L content (data c) of
             Inl err \<Rightarrow>
               emit (Log Warn ''Failed to parse cache file'') (st\<lparr>cache := c\<lparr>data := Map.empty\<rparr>\<rparr>)
           | Inr decoded \<Rightarrow>
               emit (Log Info ''Loaded certificate cache from file'') (st\<lparr>cache := c\<lparr>data := decoded\<rparr>\<rparr>)))"

definition Save :: "stdlib \<Rightarrow> world \<Rightarrow> world" where
  "Save L st =
     (let c = cache st in
      if filePath c = [] then emit (Log Debug ''No cache file path specified, skipping cache save'') st
      else let cacheCopy = data c in
        case json_MarshalIndent L cacheCopy of
          Inl err \<Rightarrow> emit (Log Warn ''Failed to marshal cache'') st
        | Inr content \<Rightarrow>
            let dir = filepath_Dir L (filePath c);
                mkdir_err = (if dir \<noteq> [] then MkdirAll (fs st) dir else None)
            in case mkdir_err of
                 Some err \<Rightarrow> emit (Log Warn ''Failed to create cache directory'') st
               | None \<Rightarrow>
                   (case WriteFile (filePath c) content (fs st) of
                      (Some err, fs') \<Rightarrow> emit (Log Warn ''Failed to write cache file'') (st\<lparr>fs := fs'\<rparr>)
                    | (None, fs') \<Rightarrow> emit (Log Debug ''Successfully saved certificate cache'') (st\<lparr>fs := fs'\<rparr>)))"

definition GetEntryAtomic :: "string \<Rightarrow> world \<Rightarrow> error + (CachedCertMeta option \<times> FileInfo)" where
  "GetEntryAtomic path st =
     (case Stat (fs st) path of
        Inl err \<Rightarrow> Inl err
      | Inr info \<Rightarrow> Inr (data (cache st) path, info))"

definition SetEntryAtomic :: "string \<Rightarrow> bytes \<Rightarrow> FileInfo \<Rightarrow> world \<Rightarrow> world" where
  "SetEntryAtomic path fingerprint info st =
     st\<lparr>cache := (cache st)\<lparr>data := (data (cache st))(path \<mapsto>
           \<lparr>Fingerprint = fingerprint, ModTime = info_ModTime info, Size = info_Size info\<rparr>)\<rparr>\<rparr>"

definition New :: "string \<Rightarrow> Cache" where
  "New path = \<lparr>filePath = path, data = Map.empty\<rparr>"

definition Clear :: "world \<Rightarrow> world" where
  "Clear st = st\<lparr>cache := (cache st)\<lparr>data := Map.empty\<rparr>\<rparr>"

section \<open>The scanner (internal/scanner/scanner.go)\<close>

definition MaxBackoff :: Duration where
  "MaxBackoff = 10 * Minute"

subsection \<open>Backoff\<close>

definition registerScanFailure :: "Time \<Rightarrow> Duration \<Rightarrow> string \<Rightarrow> world \<Rightarrow> world" where
  "registerScanFailure now_t jitter_d dir st =
     (let delay =
        (case backoff st dir of
           Some t \<Rightarrow>
             if After t now_t
             then let delay = wrap64 (Sub t now_t * 2)
                  in if delay < 0 \<or> delay > MaxBackoff then MaxBackoff else delay
             else 30 * Second
         | None \<Rightarrow> 30 * Second)
      in emit (Log Warn ''Scan failed, applying backoff'')
           (st\<lparr>backoff := (backoff st)(dir \<mapsto> Add now_t (delay + jitter_d))\<rparr>))"

definition shouldSkipScan :: "Time \<Rightarrow> string \<Rightarrow> world \<Rightarrow> bool \<times> world" where
  "shouldSkipScan now_t dir st =
     (case backoff st dir of
        None \<Rightarrow> (False, st)
      | Some nextAllowed \<Rightarrow>
          if Before now_t nextAllowed
          then (True, emit (Log Debug ''Directory scan skipped due to backoff'') st)
          else (False, emit (Log Debug ''Backoff period expired, allowing directory scan'')
                         (st\<lparr>backoff := (backoff st)(dir := None)\<rparr>)))"

subsection \<open>Labels and the metrics gate\<close>

definition shouldWriteMetrics :: "env \<Rightarrow> bool" where
  "shouldWriteMetrics E = (case config_Get E of None \<Rightarrow> False | Some cfg \<Rightarrow> \<not> DryRun cfg)"

definition sanitizeLabelValue :: "string \<Rightarrow> world \<Rightarrow> string \<times> world" where
  "sanitizeLabelValue val st =
     (let val = TrimSpace val
      in if length val > MaxLabelLength
         then (take MaxLabelLength val, emit (Metric LabelsTruncated_Inc) st)
         else (val, st))"

subsection \<open>Leaf-certificate extraction\<close>

text \<open>A call of \<^verbatim>\<open>x509.ParseCertificate\<close>, recorded in the trace.\<close>

definition ParseCertificate :: "stdlib \<Rightarrow> bytes \<Rightarrow> world \<Rightarrow> (error + Certificate) \<times> world" where
  "ParseCertificate L der st = (x509_ParseCertificate L der, emit (CertParse der) st)"

text \<open>
  The loop of \<open>parseLeafCertificate\<close> over the PEM blocks of the file: the list is what
  \<^verbatim>\<open>pem.Decode\<close> still has to return, the empty list is the call that returns no block.
\<close>

fun parseLeaf_loop :: "stdlib \<Rightarrow> string \<Rightarrow> string \<Rightarrow> pem_Block list \<Rightarrow> world \<Rightarrow> (error + Certificate) \<times> world" where
  "parseLeaf_loop L path dirPath [] st = (Inl (Error ''no valid certificate found''), st)"
| "parseLeaf_loop L path dirPath (block # rest) st =
     (if Type block \<noteq> ''CERTIFICATE'' then parseLeaf_loop L path dirPath rest st
      else case ParseCertificate L (Bytes block) st of
        (Inl err, st1) \<Rightarrow>
          parseLeaf_loop L path dirPath rest
            (emit (Metric (CertParseErrors_Inc path)) (emit (Log Warn ''PEM parse error'') st1))
      | (Inr c, st1) \<Rightarrow> (Inr c, emit (Metric (CertsParsedTotal_Inc dirPath)) st1))"

definition parseLeafCertificate :: "stdlib \<Rightarrow> bytes \<Rightarrow> string \<Rightarrow> string \<Rightarrow> string \<Rightarrow> world \<Rightarrow> (error + Certificate) \<times> world" where
  "parseLeafCertificate L raw ext path dirPath st =
     (if ext = ''.der''
      then case ParseCertificate L raw st of
             (Inl err, st1) \<Rightarrow> (Inl err, emit (Metric (CertParseErrors_Inc path)) st1)
           | (Inr c, st1) \<Rightarrow> (Inr c, emit (Metric (CertsParsedTotal_Inc dirPath)) st1)
      else parseLeaf_loop L path dirPath (pem_Decode_all L raw) st)"

subsection \<open>Processing one certificate\<close>

definition seen_count :: "(string \<rightharpoonup> int) \<Rightarrow> string \<Rightarrow> int" where
  "seen_count seen key = (case seen key of None \<Rightarrow> 0 | Some n \<Rightarrow> n)"

text \<open>
  The block guarded by \<^verbatim>\<open>if !dryRun && s.shouldWriteMetrics()\<close>. The guard has found the
  configuration to be non-nil, so the case \<open>None\<close> of the second \<^verbatim>\<open>config.Get()\<close> is not
  reached.
\<close>

definition export_metrics :: "env \<Rightarrow> Certificate \<Rightarrow> string \<Rightarrow> string \<Rightarrow> string \<Rightarrow> string \<Rightarrow> int \<Rightarrow> int \<Rightarrow> string \<Rightarrow> world \<Rightarrow> world" where
  "export_metrics E cert cn sanitizedFile issuer sanitizedSANs dup issuerCode hostname st =
     (let st = emit (Metric (CertExpiration_Set cn sanitizedFile (Unix (NotAfter cert)))) st;
          st = emit (Metric (CertNotBefore_Set cn sanitizedFile (Unix (NotBefore cert)))) st;
          st = emit (Metric (CertSANCount_Set cn sanitizedFile (int (length (DNSNames cert))))) st;
          st = emit (Metric (CertInfo_Set cn sanitizedFile sanitizedSANs)) st;
          st = emit (Metric (CertIssuer_Set issuer cn sanitizedFile)) st;
          st = emit (Metric (CertDuplicateCount_Set cn sanitizedFile dup)) st;
          st = emit (Metric (CertIssuerCode_Set cn sanitizedFile issuerCode)) st
      in case config_Get E of
        None \<Rightarrow> st
      | Some cfg \<Rightarrow>
          let st = (if Sub (NotAfter cert) (now E) \<le> wrap64 (wrap64 (ExpiryThresholdDays cfg * 24) * Hour)
                    then emit (Log Warn ''Leaf certificate expiring soon'')
                           (emit (Metric (CertExpiringSoon_Set cn sanitizedFile hostname dup)) st)
                    else st)
          in if EnableWeakCryptoMetrics cfg
             then let st = (if IsWeakKey cert
                            then emit (Log Warn ''Weak key detected'')
                                   (emit (Metric (WeakKeyCounter_Inc cn sanitizedFile)) st)
                            else st)
                  in if IsDeprecatedSigAlg (SignatureAlgorithm cert)
                     then emit (Log Warn ''Deprecated signature algorithm detected'')
                            (emit (Metric (DeprecatedSigAlgCounter_Inc cn sanitizedFile)) st)
                     else st
             else st)"

definition processCertificate :: "stdlib \<Rightarrow> env \<Rightarrow> Certificate \<Rightarrow> string \<Rightarrow> string \<Rightarrow> (string \<rightharpoonup> int) \<Rightarrow> string \<Rightarrow> bool \<Rightarrow> world \<Rightarrow> (string \<rightharpoonup> int) \<times> world" where
  "processCertificate L E cert path dirPath seen hostname dryRun st =
     (let file = Base path;
          (sanitizedFile, st) = sanitizeLabelValue file st;
          sig = sha256_Sum256 L (Raw cert);
          key = Sprintf_x sig;
          seen = seen(key \<mapsto> seen_count seen key + 1);
          (cn, st) = sanitizeLabelValue (Subject_CommonName cert) st;
          (issuer, st) = sanitizeLabelValue (Issuer_CommonName cert) st;
          issuerCode = DetermineIssuerCode cert;
          (sanitizedSANs, st) =
             (if length (DNSNames cert) > 0
              then sanitizeLabelValue (Join_strings (take MaxSANsExported (DNSNames cert)) '','') st
              else ([], st));
          st = (if \<not> dryRun \<and> shouldWriteMetrics E
                then export_metrics E cert cn sanitizedFile issuer sanitizedSANs
                       (seen_count seen key) issuerCode hostname st
                else st)
      in (seen, emit (Log Info ''Parsed leaf certificate'') st))"

subsection \<open>The walk\<close>

text \<open>
  The function literal that \<open>ProcessDirectory\<close> passes to \<^verbatim>\<open>filepath.WalkDir\<close>. Its state is
  the map \<open>seen\<close> it closes over and the world. \<open>d\<close> is \<open>None\<close> for the nil entry that
  \<^verbatim>\<open>WalkDir\<close> passes when \<^verbatim>\<open>Lstat\<close> of the root fails.
\<close>

definition walkFn :: "stdlib \<Rightarrow> env \<Rightarrow> string \<Rightarrow> bool \<Rightarrow> string \<Rightarrow> string \<Rightarrow> DirEntry option \<Rightarrow> error option \<Rightarrow> (string \<rightharpoonup> int) \<times> world \<Rightarrow> error option \<times> (string \<rightharpoonup> int) \<times> world" where
  "walkFn L E dirPath dryRun hostname path d err s =
     (case s of (seen, st) \<Rightarrow>
      if err \<noteq> None then (None, seen, st)
      else case d of
        None \<Rightarrow> (None, seen, st)
      | Some d \<Rightarrow>
          if IsDir d
          then (if ToLower (Name d) = ''old'' \<or> ToLower (Name d) = ''working''
                then (Some SkipDir, seen, emit (Log Info ''Skipping subdirectory'') st)
                else (None, seen, st))
          else let ext = ToLower (Ext (Name d)) in
            if ext \<noteq> ''.pem'' \<and> ext \<noteq> ''.crt'' \<and> ext \<noteq> ''.cer'' \<and> ext \<noteq> ''.der''
            then (None, seen, st)
            else case GetEntryAtomic path st of
              Inl err \<Rightarrow>
                (None, seen, emit (Metric (CertParseErrors_Inc path)) (emit (Log Warn ''Stat error'') st))
            | Inr (cached, info) \<Rightarrow>
                let st = emit (Metric (CertFilesTotal_Inc dirPath)) st in
                if (case cached of
                      None \<Rightarrow> False
                    | Some c \<Rightarrow> Equal (ModTime c) (info_ModTime info) \<and> Size c = info_Size info)
                then (None, seen, emit (Log Debug ''Skipping file with unchanged ModTime and Size'') st)
                else let st = emit (FileRead path) st in
                  case ReadFile (fs st) path of
                    Inl err \<Rightarrow>
                      (None, seen, emit (Metric (CertParseErrors_Inc path)) (emit (Log Warn ''Read error'') st))
                  | Inr raw \<Rightarrow>
                      (case parseLeafCertificate L raw ext path dirPath st of
                         (Inl err, st) \<Rightarrow>
                           (None, seen, emit (Log Debug ''No valid certificate found in file'') st)
                       | (Inr leafCert, st) \<Rightarrow>
                           (case processCertificate L E leafCert path dirPath seen hostname dryRun st of
                              (seen, st) \<Rightarrow>
                                let fingerprint = sha256_Sum256 L (Raw leafCert)
                                in (None, seen, SetEntryAtomic path fingerprint info st))))"

text \<open>
  \<^verbatim>\<open>filepath.WalkDir\<close> and its helper \<^verbatim>\<open>walkDir\<close> of the Go standard library, for any
  callback \<open>fn\<close> with state \<open>'s\<close>: the callback is called on the entry; a directory is
  then read, a read error is reported to the callback in a second call, and the entries
  read are walked in order. \<open>SkipDir\<close> from the callback on a directory skips it, from an
  entry of a directory it skips the remaining entries; any other error ends the walk.
\<close>

fun walkDir :: "stdlib \<Rightarrow> (string \<Rightarrow> DirEntry option \<Rightarrow> error option \<Rightarrow> 's \<Rightarrow> error option \<times> 's) \<Rightarrow> string \<Rightarrow> DirEntry \<Rightarrow> 's \<Rightarrow> error option \<times> 's"
  and walkDir_entries :: "stdlib \<Rightarrow> (string \<Rightarrow> DirEntry option \<Rightarrow> error option \<Rightarrow> 's \<Rightarrow> error option \<times> 's) \<Rightarrow> string \<Rightarrow> DirEntry list \<Rightarrow> 's \<Rightarrow> error option \<times> 's" where
  "walkDir L fn path (DirEntry name isDir rerr entries) s =
     (let d = DirEntry name isDir rerr entries in
      case fn path (Some d) None s of
        (Some err, s1) \<Rightarrow> (if err = SkipDir \<and> isDir then None else Some err, s1)
      | (None, s1) \<Rightarrow>
          if \<not> isDir then (None, s1)
          else case rerr of
            Some rerr \<Rightarrow>
              (case fn path (Some d) (Some rerr) s1 of
                 (Some err, s2) \<Rightarrow> (if err = SkipDir \<and> isDir then None else Some err, s2)
               | (None, s2) \<Rightarrow> walkDir_entries L fn path entries s2)
          | None \<Rightarrow> walkDir_entries L fn path entries s1)"
| "walkDir_entries L fn path [] s = (None, s)"
| "walkDir_entries L fn path (d1 # dirs) s =
     (case walkDir L fn (filepath_Join L path (Name d1)) d1 s of
        (Some err, s1) \<Rightarrow> if err = SkipDir then (None, s1) else (Some err, s1)
      | (None, s1) \<Rightarrow> walkDir_entries L fn path dirs s1)"

definition WalkDir :: "stdlib \<Rightarrow> filesystem \<Rightarrow> string \<Rightarrow> (string \<Rightarrow> DirEntry option \<Rightarrow> error option \<Rightarrow> 's \<Rightarrow> error option \<times> 's) \<Rightarrow> 's \<Rightarrow> error option \<times> 's" where
  "WalkDir L fsys root fn s =
     (case (case Lstat fsys root of
              Inl err \<Rightarrow> fn root None (Some err) s
            | Inr info \<Rightarrow> walkDir L fn root info s) of
        (err, s1) \<Rightarrow> (if err = Some SkipDir \<or> err = Some SkipAll then None else err, s1))"

subsection \<open>ProcessDirectory\<close>

text \<open>
  The two deferred functions run when the function returns, the one registered last
  first: the last-scan gauge (registered only after the root has been found to be a
  directory), then the scan-duration histogram. A nil map result is \<open>None\<close>.
\<close>

definition deferred_LastScan :: "env \<Rightarrow> string \<Rightarrow> bool \<Rightarrow> world \<Rightarrow> world" where
  "deferred_LastScan E dirPath dryRun st =
     (if \<not> dryRun \<and> shouldWriteMetrics E
      then emit (Metric (CertLastScan_Set dirPath (Unix (finish E)))) st
      else st)"

definition deferred_ScanDuration :: "env \<Rightarrow> string \<Rightarrow> world \<Rightarrow> world" where
  "deferred_ScanDuration E dirPath st =
     emit (Metric (CertScanDuration_Observe dirPath (Sub (finish E) (now E)))) st"

definition ProcessDirectory :: "stdlib \<Rightarrow> env \<Rightarrow> string \<Rightarrow> bool \<Rightarrow> world \<Rightarrow> (string \<rightharpoonup> int) option \<times> world" where
  "ProcessDirectory L E dirPath dryRun st =
     (let st = (if \<not> dryRun \<and> \<not> shouldWriteMetrics E
                then emit (Log Info ''Dry-run mode active, metrics writes are disabled'') st
                else st)
      in case shouldSkipScan (now E) dirPath st of
        (True, st) \<Rightarrow> (None, emit (Log Warn ''Skipping scan due to backoff'') st)
      | (False, st) \<Rightarrow>
          if (case Stat (fs st) dirPath of Inl err \<Rightarrow> True | Inr info \<Rightarrow> \<not> info_IsDir info)
          then (None, deferred_ScanDuration E dirPath
                        (registerScanFailure (now E) (jitter E) dirPath
                           (emit (Log Warn ''Skipping non-directory'') st)))
          else let seen = Map.empty;
                   hostname = Hostname E
               in case WalkDir L (fs st) dirPath (walkFn L E dirPath dryRun hostname) (seen, st) of
                    (err, seen, st) \<Rightarrow>
                      let st = (if err \<noteq> None
                                then registerScanFailure (now E) (jitter E) dirPath
                                       (emit (Log Warn ''WalkDir error'') st)
                                else st)
                      in (Some seen, deferred_ScanDuration E dirPath (deferred_LastScan E dirPath dryRun st)))"

section \<open>Notions of the specification\<close>


text \<open>
  The base delay of \<open>RegisterFailure\<close> in the words of the specification, over the
  unbounded integers: 30 seconds when no unexpired backoff exists, otherwise twice the
  remaining time of the entry, clamped to the 10-minute ceiling.
\<close>

definition base_delay :: "Time \<Rightarrow> Time option \<Rightarrow> Duration" where
  "base_delay now_t entry =
     (case entry of
        None \<Rightarrow> 30 * Second
      | Some t \<Rightarrow> if now_t < t then min (2 * (t - now_t)) (10 * Minute) else 30 * Second)"

text \<open>
  A PEM block that "has the right type and parses".
\<close>

definition valid_block :: "stdlib \<Rightarrow> pem_Block \<Rightarrow> bool" where
  "valid_block L block =
     (Type block = ''CERTIFICATE'' \<and>
      (case x509_ParseCertificate L (Bytes block) of Inl err \<Rightarrow> False | Inr c \<Rightarrow> True))"

text \<open>
  The metrics that the scanner writes outside the guard \<^verbatim>\<open>!dryRun && s.shouldWriteMetrics()\<close>:
  the parse-error, files-seen and certs-parsed counters, the scan-duration histogram and
  the counter of truncated labels.
\<close>

fun unguarded :: "metric \<Rightarrow> bool" where
  "unguarded (CertParseErrors_Inc file) = True"
| "unguarded (CertFilesTotal_Inc dir) = True"
| "unguarded (CertsParsedTotal_Inc dir) = True"
| "unguarded (CertScanDuration_Observe dir d) = True"
| "unguarded LabelsTruncated_Inc = True"
| "unguarded m = False"

definition unguarded_event :: "event \<Rightarrow> bool" where
  "unguarded_event e = (case e of Metric m \<Rightarrow> unguarded m | _ \<Rightarrow> True)"

definition no_read_event :: "event \<Rightarrow> bool" where
  "no_read_event e = (case e of FileRead path \<Rightarrow> False | CertParse der \<Rightarrow> False | _ \<Rightarrow> True)"

text \<open>A cache entry with the modification time and the size of a stat result.\<close>

definition cache_hit :: "world \<Rightarrow> string \<Rightarrow> FileInfo \<Rightarrow> bool" where
  "cache_hit st path info =
     (case data (cache st) path of
        None \<Rightarrow> False
      | Some c \<Rightarrow> ModTime c = info_ModTime info \<and> Size c = info_Size info)"

text \<open>
  A path is settled when the scanner will not read it: its stat fails, or its cached entry
  has the modification time and size of the stat.
\<close>

definition settled :: "world \<Rightarrow> string \<Rightarrow> bool" where
  "settled st path = (case Stat (fs st) path of Inl err \<Rightarrow> True | Inr info \<Rightarrow> cache_hit st path info)"

definition cert_ext :: "string \<Rightarrow> bool" where
  "cert_ext name =
     (let ext = ToLower (Ext name)
      in ext = ''.pem'' \<or> ext = ''.crt'' \<or> ext = ''.cer'' \<or> ext = ''.der'')"

text \<open>
  The certificate files of a tree: the entries that are not directories, have one of the
  four extensions and do not lie below a directory named "old" or "working", each with its
  path and its name, in the order of the walk.
\<close>

fun cert_files :: "stdlib \<Rightarrow> string \<Rightarrow> DirEntry \<Rightarrow> (string \<times> string) list"
  and cert_files_entries :: "stdlib \<Rightarrow> string \<Rightarrow> DirEntry list \<Rightarrow> (string \<times> string) list" where
  "cert_files L path (DirEntry name isDir rerr entries) =
     (if isDir
      then (if ToLower name = ''old'' \<or> ToLower name = ''working'' then []
            else cert_files_entries L path entries)
      else if cert_ext name then [(path, name)] else [])"
| "cert_files_entries L path [] = []"
| "cert_files_entries L path (d1 # dirs) =
     cert_files L (filepath_Join L path (Name d1)) d1 @ cert_files_entries L path dirs"

definition cert_files_root :: "stdlib \<Rightarrow> filesystem \<Rightarrow> string \<Rightarrow> (string \<times> string) list" where
  "cert_files_root L fsys root =
     (case Lstat fsys root of Inl err \<Rightarrow> [] | Inr d \<Rightarrow> cert_files L root d)"

text \<open>
  A certificate file yields a leaf certificate when it can be read and its content parses:
  as one DER certificate for the extension \<^verbatim>\<open>.der\<close>, with a block that has the right type
  and parses otherwise.
\<close>

definition yields_certificate :: "stdlib \<Rightarrow> filesystem \<Rightarrow> string \<Rightarrow> string \<Rightarrow> bool" where
  "yields_certificate L fsys path name =
     (case ReadFile fsys path of
        Inl err \<Rightarrow> False
      | Inr raw \<Rightarrow>
          if ToLower (Ext name) = ''.der''
          then (case x509_ParseCertificate L raw of Inl err \<Rightarrow> False | Inr c \<Rightarrow> True)
          else find (valid_block L) (pem_Decode_all L raw) \<noteq> None)"

text \<open>The states that differ from a given one in the trace only.\<close>

definition only_trace :: "world \<Rightarrow> world \<Rightarrow> bool" where
  "only_trace st st' = (cache st' = cache st \<and> backoff st' = backoff st \<and> fs st' = fs st)"

definition all_events :: "(event \<Rightarrow> bool) \<Rightarrow> world \<Rightarrow> bool" where
  "all_events P st = (\<forall>e \<in> set (trace st). P e)"

text \<open>
  The relations between the state before and after a part of a walk that the proofs
  use: the part reads nothing and leaves the result map and everything but the trace
  alone (\<open>quiet_step\<close>); it leaves the file system and the backoff alone and keeps settled
  paths settled (\<open>keeps_settled\<close>).
\<close>

definition quiet_step :: "(string \<rightharpoonup> int) \<times> world \<Rightarrow> (string \<rightharpoonup> int) \<times> world \<Rightarrow> bool" where
  "quiet_step s s' =
     (fst s' = fst s \<and> only_trace (snd s) (snd s') \<and>
      (all_events no_read_event (snd s) \<longrightarrow> all_events no_read_event (snd s')))"

definition keeps_settled :: "world \<Rightarrow> world \<Rightarrow> bool" where
  "keeps_settled st st' =
     (fs st' = fs st \<and> backoff st' = backoff st \<and> (\<forall>p. settled st p \<longrightarrow> settled st' p))"

text \<open>
  The state of \<open>ProcessDirectory\<close> after its backoff check, and the test of its root.
\<close>

definition entry_state :: "env \<Rightarrow> string \<Rightarrow> bool \<Rightarrow> world \<Rightarrow> world" where
  "entry_state E dirPath dryRun st =
     snd (shouldSkipScan (now E) dirPath
            (if \<not> dryRun \<and> \<not> shouldWriteMetrics E
             then emit (Log Info ''Dry-run mode active, metrics writes are disabled'') st
             else st))"

definition root_is_dir :: "world \<Rightarrow> string \<Rightarrow> bool" where
  "root_is_dir st dirPath = (case Stat (fs st) dirPath of Inl err \<Rightarrow> False | Inr info \<Rightarrow> info_IsDir info)"

section \<open>Concrete inputs\<close>

text \<open>The inputs at which the theorems below are instantiated.\<close>

definition example_cert :: Certificate where
  "example_cert =
     \<lparr>Raw = [1], Subject_CommonName = ''digicert test root'',
      Issuer_CommonName = ''DigiCert Test Root'', NotBefore = 0, NotAfter = 4000000000 * Second,
      DNSNames = [''a.example.org''], PublicKey = rsa_PublicKey (2 ^ 1023),
      SignatureAlgorithm = SHA256WithRSA\<rparr>"

definition example_table :: "string \<rightharpoonup> CachedCertMeta" where
  "example_table =
     [''/certs/a.pem'' \<mapsto> \<lparr>Fingerprint = replicate 32 7, ModTime = 1700000000 * Second, Size = 1234\<rparr>]"

definition example_blocks :: "pem_Block list" where
  "example_blocks =
     [\<lparr>Type = ''PRIVATE KEY'', Bytes = [1]\<rparr>,
      \<lparr>Type = ''CERTIFICATE'', Bytes = [9]\<rparr>,
      \<lparr>Type = ''CERTIFICATE'', Bytes = [1]\<rparr>,
      \<lparr>Type = ''CERTIFICATE'', Bytes = [2]\<rparr>]"

definition example_stdlib :: stdlib where
  "example_stdlib =
     \<lparr>filepath_Join = (\<lambda>dir name. dir @ ''/'' @ name),
      filepath_Dir = (\<lambda>path. ''/var/lib/cert-monitor''),
      pem_Decode_all = (\<lambda>raw. if raw = [45] then example_blocks else []),
      x509_ParseCertificate =
        (\<lambda>der. if der = [1] then Inr example_cert
               else if der = [2] then Inr (example_cert\<lparr>Raw := [2], Subject_CommonName := ''Intermediate''\<rparr>)
               else Inl (Error ''x509: malformed certificate'')),
      sha256_Sum256 = (\<lambda>bs. take 32 (bs @ replicate 32 0)),
      json_MarshalIndent = (\<lambda>m. Inr [123, 125]),
      json_Unmarshal =
        (\<lambda>content m. if content = [123, 125] then Inr (m ++ example_table)
                      else Inl (Error ''invalid character''))\<rparr>"

definition example_fs :: filesystem where
  "example_fs =
     \<lparr>Stat = (\<lambda>p. Inl (Error ''no such file or directory'')),
      Lstat = (\<lambda>p. Inl (Error ''no such file or directory'')),
      ReadFile = (\<lambda>p. Inl (Error ''no such file or directory'')),
      MkdirAll = (\<lambda>p. None),
      WriteFile_err = (\<lambda>p. None)\<rparr>"

definition example_world :: world where
  "example_world =
     \<lparr>cache = New ''/var/lib/cert-monitor/cache.json'', backoff = Map.empty,
      fs = example_fs, trace = []\<rparr>"

text \<open>
  A directory \<^verbatim>\<open>/certs\<close> with a certificate file \<^verbatim>\<open>a.pem\<close>, a file \<^verbatim>\<open>key.pem\<close> without
  any certificate and a subdirectory \<^verbatim>\<open>sub\<close> that cannot be read.
\<close>

definition scan_fs :: filesystem where
  "scan_fs =
     \<lparr>Stat = (\<lambda>p. if p = ''/certs''
                   then Inr \<lparr>info_ModTime = 1690000000 * Second, info_Size = 4096, info_IsDir = True\<rparr>
                   else if p = ''/certs/a.pem''
                   then Inr \<lparr>info_ModTime = 1700000000 * Second, info_Size = 1234, info_IsDir = False\<rparr>
                   else if p = ''/certs/key.pem''
                   then Inr \<lparr>info_ModTime = 1700000000 * Second, info_Size = 1704, info_IsDir = False\<rparr>
                   else Inl (Error ''no such file or directory'')),
      Lstat = (\<lambda>p. if p = ''/certs''
                    then Inr (DirEntry ''certs'' True None
                               [DirEntry ''a.pem'' False None [],
                                DirEntry ''key.pem'' False None [],
                                DirEntry ''sub'' True (Some (Error ''permission denied'')) []])
                    else Inl (Error ''no such file or directory'')),
      ReadFile = (\<lambda>p. if p = ''/certs/a.pem'' then Inr [45]
                       else if p = ''/certs/key.pem'' then Inr [46]
                       else Inl (Error ''no such file or directory'')),
      MkdirAll = (\<lambda>p. None),
      WriteFile_err = (\<lambda>p. None)\<rparr>"

definition scan_world :: world where
  "scan_world = example_world\<lparr>fs := scan_fs\<rparr>"

text \<open>
  The same directory with \<^verbatim>\<open>key.pem\<close> moved below a subdirectory \<^verbatim>\<open>old\<close>, and a file
  that is no certificate file.
\<close>

definition clean_fs :: filesystem where
  "clean_fs =
     scan_fs\<lparr>Lstat := (\<lambda>p. if p = ''/certs''
                             then Inr (DirEntry ''certs'' True None
                                        [DirEntry ''a.pem'' False None [],
                                         DirEntry ''notes.txt'' False None [],
                                         DirEntry ''old'' True None [DirEntry ''key.pem'' False None []]])
                             else Inl (Error ''no such file or directory''))\<rparr>"

definition clean_world :: world where
  "clean_world = example_world\<lparr>fs := clean_fs\<rparr>"

definition example_config :: Config where
  "example_config =
     \<lparr>CertDirs = [''/certs''], LogFile = ''/var/log/cert-monitor.log'', Port = ''3000'',
      BindAddress = ''0.0.0.0'', NumWorkers = 4, DryRun = False, ExpiryThresholdDays = 45,
      ClearCacheOnReload = False, TLSCertFile = [], TLSKeyFile = [], EnablePprof = False,
      EnableRuntimeMetrics = False, EnableWeakCryptoMetrics = True,
      CacheFile = ''/var/lib/cert-monitor/cache.json'', ConfigFile = []\<rparr>"

definition example_env :: env where
  "example_env =
     \<lparr>config_Get = Some example_config, now = 1800000000 * Second,
      finish = 1800000001 * Second, jitter = 3 * Second, Hostname = ''node1''\<rparr>"

definition example_key :: string where
  "example_key = ''0100000000000000000000000000000000000000000000000000000000000000''"

chapter \<open>Properties\<close>

section \<open>Classification\<close>














lemma BitLen_le_iff: "BitLen n \<le> k \<longleftrightarrow> n < 2 ^ k"
proof (induction n arbitrary: k rule: BitLen.induct)
  case (1 n)
  show ?case
  proof (cases "n = 0")
    case True
    then show ?thesis by (simp add: BitLen.simps)
  next
    case False
    show ?thesis
    proof (cases k)
      case 0
      with False show ?thesis by (subst BitLen.simps) simp
    next
      case (Suc k')
      have "BitLen n \<le> Suc k' \<longleftrightarrow> BitLen (n div 2) \<le> k'"
        using False by (subst BitLen.simps) simp
      also have "\<dots> \<longleftrightarrow> n div 2 < 2 ^ k'" using 1 False by simp
      also have "\<dots> \<longleftrightarrow> n < 2 ^ Suc k'" by auto
      finally show ?thesis using Suc by simp
    qed
  qed
qed

lemma BitLen_pow2: "BitLen (2 ^ k) = Suc k"
proof -
  have "\<not> BitLen (2 ^ k) \<le> k" unfolding BitLen_le_iff by simp
  moreover have "BitLen (2 ^ k) \<le> Suc k" unfolding BitLen_le_iff by simp
  ultimately show ?thesis by simp
qed

lemma BitLen_1024: "BitLen (2 ^ 1023) = 1024"
  using BitLen_pow2 [of 1023] by (simp del: power_numeral)

lemma BitLen_2048: "BitLen (2 ^ 2047) = 2048"
  using BitLen_pow2 [of 2047] by (simp del: power_numeral)

text \<open>
  C6. \<open>IsWeakKey\<close> holds exactly for an RSA key whose modulus has fewer than 2048 bits and
  for an ECDSA key whose curve has fewer than 256 bits; a 1024-bit modulus is weak, a
  2048-bit modulus is not, a 224-bit curve is weak, a 256-bit curve is not.
\<close>
theorem IsWeakKey_thresholds:
  "IsWeakKey cert =
     ((\<exists>n. PublicKey cert = rsa_PublicKey n \<and> BitLen n < 2048) \<or>
      (\<exists>bitSize. PublicKey cert = ecdsa_PublicKey bitSize \<and> bitSize < 256))
   \<and> BitLen (2 ^ 1023) = 1024 \<and> IsWeakKey (cert\<lparr>PublicKey := rsa_PublicKey (2 ^ 1023)\<rparr>)
   \<and> BitLen (2 ^ 2047) = 2048 \<and> \<not> IsWeakKey (cert\<lparr>PublicKey := rsa_PublicKey (2 ^ 2047)\<rparr>)
   \<and> IsWeakKey (cert\<lparr>PublicKey := ecdsa_PublicKey 224\<rparr>)
   \<and> \<not> IsWeakKey (cert\<lparr>PublicKey := ecdsa_PublicKey 256\<rparr>)"
proof -
  have "IsWeakKey cert =
     ((\<exists>n. PublicKey cert = rsa_PublicKey n \<and> BitLen n < 2048) \<or>
      (\<exists>bitSize. PublicKey cert = ecdsa_PublicKey bitSize \<and> bitSize < 256))"
    by (simp add: IsWeakKey_def split: PublicKey.splits)
  moreover have "IsWeakKey (cert\<lparr>PublicKey := rsa_PublicKey (2 ^ 1023)\<rparr>)"
    by (simp add: IsWeakKey_def BitLen_1024 del: power_numeral)
  moreover have "\<not> IsWeakKey (cert\<lparr>PublicKey := rsa_PublicKey (2 ^ 2047)\<rparr>)"
    by (simp add: IsWeakKey_def BitLen_2048 del: power_numeral)
  moreover have "IsWeakKey (cert\<lparr>PublicKey := ecdsa_PublicKey 224\<rparr>)"
    by (simp add: IsWeakKey_def)
  moreover have "\<not> IsWeakKey (cert\<lparr>PublicKey := ecdsa_PublicKey 256\<rparr>)"
    by (simp add: IsWeakKey_def)
  ultimately show ?thesis using BitLen_1024 BitLen_2048 by blast
qed

text \<open>The thresholds at a certificate with a 1024-bit RSA key.\<close>
theorem IsWeakKey_thresholds_witness:
  "IsWeakKey example_cert \<and> \<not> IsWeakKey (example_cert\<lparr>PublicKey := ecdsa_PublicKey 256\<rparr>)"
  using IsWeakKey_thresholds [of example_cert]
  by (simp add: example_cert_def del: power_numeral)

lemma backoff_emit [simp]: "backoff (emit e st) = backoff st"
  and cache_emit [simp]: "cache (emit e st) = cache st"
  and fs_emit [simp]: "fs (emit e st) = fs st"
  and trace_emit [simp]: "trace (emit e st) = trace st @ [e]"
  by (simp_all add: emit_def)

text \<open>
  C8. \<open>shouldSkipScan\<close>: with no entry for the directory it returns false and leaves the
  state as it is; with an entry and the clock strictly before the next allowed time it
  returns true and leaves the backoff map as it is; with an entry whose deadline has passed
  it returns false and the entry is deleted. The cache and the file system are never
  touched.
\<close>
theorem shouldSkipScan_cases:
  "(case backoff st dir of
      None \<Rightarrow>
        shouldSkipScan now_t dir st = (False, st)
    | Some nextAllowed \<Rightarrow>
        if now_t < nextAllowed
        then fst (shouldSkipScan now_t dir st) = True \<and>
             backoff (snd (shouldSkipScan now_t dir st)) = backoff st
        else fst (shouldSkipScan now_t dir st) = False \<and>
             backoff (snd (shouldSkipScan now_t dir st)) dir = None \<and>
             backoff (snd (shouldSkipScan now_t dir st)) = (backoff st)(dir := None))
   \<and> cache (snd (shouldSkipScan now_t dir st)) = cache st
   \<and> fs (snd (shouldSkipScan now_t dir st)) = fs st"
  by (simp add: shouldSkipScan_def Before_def split: option.splits)

text \<open>The three cases at a concrete state.\<close>
theorem shouldSkipScan_cases_witness:
  "fst (shouldSkipScan 50 ''/certs'' (example_world\<lparr>backoff := [''/certs'' \<mapsto> 80]\<rparr>)) = True \<and>
   backoff (snd (shouldSkipScan 50 ''/certs'' (example_world\<lparr>backoff := [''/certs'' \<mapsto> 80]\<rparr>))) ''/certs'' = Some 80 \<and>
   fst (shouldSkipScan 80 ''/certs'' (example_world\<lparr>backoff := [''/certs'' \<mapsto> 80]\<rparr>)) = False \<and>
   backoff (snd (shouldSkipScan 80 ''/certs'' (example_world\<lparr>backoff := [''/certs'' \<mapsto> 80]\<rparr>))) ''/certs'' = None \<and>
   fst (shouldSkipScan 80 ''/certs'' example_world) = False \<and>
   backoff (snd (shouldSkipScan 80 ''/certs'' example_world)) = Map.empty"
  using shouldSkipScan_cases [where st = "example_world\<lparr>backoff := [''/certs'' \<mapsto> 80]\<rparr>" and dir = "''/certs''" and now_t = 50]
    shouldSkipScan_cases [where st = "example_world\<lparr>backoff := [''/certs'' \<mapsto> 80]\<rparr>" and dir = "''/certs''" and now_t = 80]
    shouldSkipScan_cases [where st = example_world and dir = "''/certs''" and now_t = 80]
  by (simp add: example_world_def New_def example_fs_def)

text \<open>
  C10. When \<open>Load\<close> cannot read the cache file, the table (and the rest of the state) is
  left as it was. The warning of the reset-to-empty branch is logged exactly when a path
  is configured, the file was read and its content failed to decode; the table is then
  empty.
\<close>
theorem Load_read_failure:
  "(\<forall>err. ReadFile (fs st) (filePath (cache st)) = Inl err \<longrightarrow>
      cache (Load L st) = cache st \<and> backoff (Load L st) = backoff st \<and> fs (Load L st) = fs st)
   \<and> (Log Warn ''Failed to parse cache file'' \<in> set (trace (Load L (st\<lparr>trace := []\<rparr>))) \<longleftrightarrow>
        filePath (cache st) \<noteq> [] \<and>
        (\<exists>content err. ReadFile (fs st) (filePath (cache st)) = Inr content \<and>
                        json_Unmarshal L content (data (cache st)) = Inl err))
   \<and> (Log Warn ''Failed to parse cache file'' \<in> set (trace (Load L (st\<lparr>trace := []\<rparr>))) \<longrightarrow>
        data (cache (Load L st)) = Map.empty)"
  by (auto simp: Load_def Let_def split: sum.splits)

text \<open>A missing cache file keeps the table; an undecodable one empties it.\<close>
theorem Load_read_failure_witness:
  "ReadFile (fs example_world) (filePath (cache example_world)) = Inl (Error ''no such file or directory'') \<and>
   cache (Load example_stdlib (example_world\<lparr>cache := (cache example_world)\<lparr>data := example_table\<rparr>\<rparr>))
     = (cache example_world)\<lparr>data := example_table\<rparr> \<and>
   Log Warn ''Failed to parse cache file'' \<in> set (trace (Load example_stdlib
      (example_world\<lparr>cache := (cache example_world)\<lparr>data := example_table\<rparr>,
                      fs := (fs example_world)\<lparr>ReadFile := (\<lambda>p. Inr [0])\<rparr>, trace := []\<rparr>))) \<and>
   data (cache (Load example_stdlib
      (example_world\<lparr>cache := (cache example_world)\<lparr>data := example_table\<rparr>,
                      fs := (fs example_world)\<lparr>ReadFile := (\<lambda>p. Inr [0])\<rparr>\<rparr>))) = Map.empty"
proof -
  let ?st1 = "example_world\<lparr>cache := (cache example_world)\<lparr>data := example_table\<rparr>\<rparr>"
  let ?st2 = "example_world\<lparr>cache := (cache example_world)\<lparr>data := example_table\<rparr>,
                      fs := (fs example_world)\<lparr>ReadFile := (\<lambda>p. Inr [0])\<rparr>\<rparr>"
  have r: "ReadFile (fs example_world) (filePath (cache example_world)) = Inl (Error ''no such file or directory'')"
    by (simp add: example_world_def example_fs_def)
  have r1: "ReadFile (fs ?st1) (filePath (cache ?st1)) = Inl (Error ''no such file or directory'')"
    by (simp add: example_world_def example_fs_def)
  have a: "cache (Load example_stdlib ?st1) = cache ?st1"
    using Load_read_failure [where L = example_stdlib and st = ?st1] r1 by blast
  have p: "filePath (cache ?st2) \<noteq> [] \<and>
        (\<exists>content err. ReadFile (fs ?st2) (filePath (cache ?st2)) = Inr content \<and>
                        json_Unmarshal example_stdlib content (data (cache ?st2)) = Inl err)"
    by (simp add: example_world_def New_def example_stdlib_def)
  have b: "Log Warn ''Failed to parse cache file'' \<in> set (trace (Load example_stdlib (?st2\<lparr>trace := []\<rparr>)))"
    using Load_read_failure [where L = example_stdlib and st = ?st2] p by blast
  then have c: "data (cache (Load example_stdlib ?st2)) = Map.empty"
    using Load_read_failure [where L = example_stdlib and st = ?st2] by blast
  from r a b c show ?thesis by simp
qed

lemma doubled_remaining:
  assumes "0 < d"
  shows "(let delay = wrap64 (sat64 d * 2) in if delay < 0 \<or> delay > MaxBackoff then MaxBackoff else delay)
         = min (2 * d) (10 * Minute)"
proof (cases "d < 2 ^ 62")
  case True
  with assms have "sat64 d = d" by (simp add: sat64_def)
  moreover from True assms have "wrap64 (d * 2) = d * 2"
    by (simp add: wrap64_def)
  ultimately show ?thesis
    using assms by (simp add: MaxBackoff_def Minute_def Second_def Let_def)
next
  case False
  define x where "x = sat64 d * 2"
  from False have x: "2 ^ 63 \<le> x" "x < 2 ^ 64"
    by (simp_all add: x_def sat64_def)
  have "(x + 2 ^ 63) mod 2 ^ 64 = ((x - 2 ^ 63) + 2 ^ 64) mod 2 ^ 64"
    by (simp add: algebra_simps)
  also have "\<dots> = (x - 2 ^ 63) mod 2 ^ 64"
    by (rule mod_add_self2)
  also have "\<dots> = x - 2 ^ 63"
    using x by (simp add: mod_pos_pos_trivial)
  finally have "wrap64 x < 0" using x by (simp add: wrap64_def)
  with False show ?thesis
    by (simp add: x_def [symmetric] MaxBackoff_def Minute_def Second_def Let_def)
qed

lemma registerScanFailure_backoff:
  "backoff (registerScanFailure now_t j dir st) =
     (backoff st)(dir \<mapsto> now_t + base_delay now_t (backoff st dir) + j)"
proof (cases "backoff st dir")
  case None
  then show ?thesis by (simp add: registerScanFailure_def base_delay_def Add_def add.assoc)
next
  case (Some t)
  show ?thesis
  proof (cases "now_t < t")
    case True
    then have pos: "0 < t - now_t" by simp
    have "(let delay = wrap64 (Sub t now_t * 2) in if delay < 0 \<or> delay > MaxBackoff then MaxBackoff else delay)
          = min (2 * (t - now_t)) (10 * Minute)"
      unfolding Sub_def by (rule doubled_remaining [OF pos])
    with Some True show ?thesis
      by (simp add: registerScanFailure_def base_delay_def Add_def After_def Let_def add.assoc)
  next
    case False
    with Some show ?thesis by (simp add: registerScanFailure_def base_delay_def Add_def After_def add.assoc)
  qed
qed

lemma base_delay_bounds: "0 < base_delay now_t entry \<and> base_delay now_t entry \<le> 10 * Minute"
  by (simp add: base_delay_def Minute_def Second_def split: option.splits)

lemma base_delay_grows:
  assumes "2 * (n2 - n1) \<le> b" "0 < b" "b \<le> 10 * Minute" "0 \<le> j"
  shows "b \<le> base_delay n2 (Some (n1 + b + j))"
  using assms by (simp add: base_delay_def min_def)

text \<open>
  C7, as amended. For three consecutive calls of \<open>registerScanFailure\<close> on a directory, at
  any times and with any jitters in \<open>[0, 10 s)\<close>: each call sets the next allowed time to
  now + base delay + jitter, where the base delay is 30 seconds when no unexpired backoff
  exists and otherwise twice the remaining time of the entry clamped to 10 minutes; every
  base delay is at most 10 minutes and every resulting delay is below 10 minutes and 10
  seconds; and the base delay does not decrease from one call to the next when the next
  call comes within half of the previous base delay.
\<close>
theorem registerScanFailure_three_calls:
  fixes st0 :: world and dir :: string and n1 n2 n3 :: Time and j1 j2 j3 :: Duration
  assumes "0 \<le> j1 \<and> j1 < 10 * Second" and "0 \<le> j2 \<and> j2 < 10 * Second" and "0 \<le> j3 \<and> j3 < 10 * Second"
  defines "st1 \<equiv> registerScanFailure n1 j1 dir st0"
    and "st2 \<equiv> registerScanFailure n2 j2 dir (registerScanFailure n1 j1 dir st0)"
    and "st3 \<equiv> registerScanFailure n3 j3 dir (registerScanFailure n2 j2 dir (registerScanFailure n1 j1 dir st0))"
  defines "b1 \<equiv> base_delay n1 (backoff st0 dir)"
    and "b2 \<equiv> base_delay n2 (backoff (registerScanFailure n1 j1 dir st0) dir)"
    and "b3 \<equiv> base_delay n3 (backoff (registerScanFailure n2 j2 dir (registerScanFailure n1 j1 dir st0)) dir)"
  shows "backoff st1 dir = Some (n1 + b1 + j1) \<and>
         backoff st2 dir = Some (n2 + b2 + j2) \<and>
         backoff st3 dir = Some (n3 + b3 + j3) \<and>
         b1 \<le> 10 * Minute \<and> b2 \<le> 10 * Minute \<and> b3 \<le> 10 * Minute \<and>
         b1 + j1 < 10 * Minute + 10 * Second \<and>
         b2 + j2 < 10 * Minute + 10 * Second \<and>
         b3 + j3 < 10 * Minute + 10 * Second \<and>
         (2 * (n2 - n1) \<le> b1 \<longrightarrow> b1 \<le> b2) \<and>
         (2 * (n3 - n2) \<le> b2 \<longrightarrow> b2 \<le> b3)"
proof -
  have s1: "backoff st1 dir = Some (n1 + b1 + j1)"
    by (simp add: st1_def b1_def registerScanFailure_backoff)
  have s2: "backoff st2 dir = Some (n2 + b2 + j2)"
    by (simp add: st2_def b2_def registerScanFailure_backoff)
  have s3: "backoff st3 dir = Some (n3 + b3 + j3)"
    by (simp add: st3_def b3_def registerScanFailure_backoff)
  have bb: "0 < b1 \<and> b1 \<le> 10 * Minute" "0 < b2 \<and> b2 \<le> 10 * Minute" "0 < b3 \<and> b3 \<le> 10 * Minute"
    unfolding b1_def b2_def b3_def by (rule base_delay_bounds)+
  have g12: "2 * (n2 - n1) \<le> b1 \<longrightarrow> b1 \<le> b2"
  proof
    assume "2 * (n2 - n1) \<le> b1"
    then have "b1 \<le> base_delay n2 (Some (n1 + b1 + j1))"
      using bb(1) assms(1) by (intro base_delay_grows) simp_all
    then show "b1 \<le> b2" using s1 by (simp add: b2_def st1_def)
  qed
  have g23: "2 * (n3 - n2) \<le> b2 \<longrightarrow> b2 \<le> b3"
  proof
    assume "2 * (n3 - n2) \<le> b2"
    then have "b2 \<le> base_delay n3 (Some (n2 + b2 + j2))"
      using bb(2) assms(2) by (intro base_delay_grows) simp_all
    then show "b2 \<le> b3" using s2 by (simp add: b3_def st2_def)
  qed
  from bb assms have "b1 + j1 < 10 * Minute + 10 * Second"
    "b2 + j2 < 10 * Minute + 10 * Second" "b3 + j3 < 10 * Minute + 10 * Second"
    by linarith+
  with s1 s2 s3 bb g12 g23 show ?thesis by blast
qed

lemma Second_val: "Second = 1000000000" by (simp add: Second_def)

text \<open>Three calls at 0 s, 10 s and 20 s with jitters of 1 s, 2 s and 3 s.\<close>
theorem registerScanFailure_three_calls_witness:
  "(0 \<le> 1 * Second \<and> 1 * Second < 10 * Second) \<and>
   backoff (registerScanFailure 0 (1 * Second) ''/certs'' example_world) ''/certs'' = Some (31 * Second) \<and>
   backoff (registerScanFailure (10 * Second) (2 * Second) ''/certs''
             (registerScanFailure 0 (1 * Second) ''/certs'' example_world)) ''/certs'' = Some (54 * Second) \<and>
   backoff (registerScanFailure (20 * Second) (3 * Second) ''/certs''
             (registerScanFailure (10 * Second) (2 * Second) ''/certs''
               (registerScanFailure 0 (1 * Second) ''/certs'' example_world))) ''/certs'' = Some (91 * Second) \<and>
   2 * (10 * Second - 0) \<le> base_delay 0 (backoff example_world ''/certs'') \<and>
   base_delay 0 (backoff example_world ''/certs'') \<le>
     base_delay (10 * Second) (backoff (registerScanFailure 0 (1 * Second) ''/certs'' example_world) ''/certs'')"
  using registerScanFailure_three_calls [where ?st0.0 = example_world and dir = "''/certs''"
      and ?n1.0 = 0 and ?n2.0 = "10 * Second" and ?n3.0 = "20 * Second"
      and ?j1.0 = "1 * Second" and ?j2.0 = "2 * Second" and ?j3.0 = "3 * Second"]
  by (simp add: example_world_def New_def example_fs_def base_delay_def Second_val Minute_def)

text \<open>
  C7 as stated fails. A second failure 29 seconds after the first doubles a remaining time
  of one second: the delay drops from 30 s to 2 s. And on an entry 1000 s in the future,
  a jitter of 5 s gives a delay of 10 min 5 s, above the 10-minute cap.
\<close>
theorem registerScanFailure_delays_counterexample:
  "\<not> (the (backoff (registerScanFailure 0 0 ''/certs'' example_world) ''/certs'') - 0
       \<le> the (backoff (registerScanFailure (29 * Second) 0 ''/certs''
                        (registerScanFailure 0 0 ''/certs'' example_world)) ''/certs'') - 29 * Second)
   \<and> \<not> (the (backoff (registerScanFailure 0 (5 * Second) ''/certs''
                         (example_world\<lparr>backoff := [''/certs'' \<mapsto> 1000 * Second]\<rparr>)) ''/certs'') - 0
          \<le> 10 * Minute)"
  by (simp add: registerScanFailure_backoff example_world_def base_delay_def Second_val Minute_def)

lemma Save_written:
  assumes "filePath (cache st) \<noteq> []"
    and "json_MarshalIndent L (data (cache st)) = Inr content"
    and "MkdirAll (fs st) (filepath_Dir L (filePath (cache st))) = None"
    and "WriteFile_err (fs st) (filePath (cache st)) = None"
  shows "ReadFile (fs (Save L st)) (filePath (cache st)) = Inr content \<and> cache (Save L st) = cache st"
  using assms by (simp add: Save_def Let_def WriteFile_def)

text \<open>
  C9. \<open>Save\<close> followed by \<open>Load\<close> into an empty table of the same path reproduces the table:
  when a path is configured, \<^verbatim>\<open>json.MarshalIndent\<close> encodes the table to \<open>content\<close>, the
  directory can be created and the file written, then the file holds \<open>content\<close>, and if
  \<^verbatim>\<open>json.Unmarshal\<close> decodes \<open>content\<close> into an empty map as the table (the round trip of the
  library), the loaded table is equal to the saved one, entry by entry, hence with equal
  fingerprints, modification times and sizes.
\<close>
theorem Save_Load_round_trip:
  assumes "filePath (cache st) \<noteq> []"
    and "json_MarshalIndent L (data (cache st)) = Inr content"
    and "MkdirAll (fs st) (filepath_Dir L (filePath (cache st))) = None"
    and "WriteFile_err (fs st) (filePath (cache st)) = None"
    and "json_Unmarshal L content Map.empty = Inr (data (cache st))"
  shows "ReadFile (fs (Save L st)) (filePath (cache st)) = Inr content \<and>
         data (cache (Load L ((Save L st)\<lparr>cache := New (filePath (cache st))\<rparr>))) = data (cache st)"
proof -
  have w: "ReadFile (fs (Save L st)) (filePath (cache st)) = Inr content"
    using Save_written [OF assms(1-4)] by simp
  then show ?thesis
    using assms(1,5) by (simp add: Load_def Let_def New_def)
qed

text \<open>A table with one entry, saved and loaded again.\<close>
theorem Save_Load_round_trip_witness:
  "data (cache (Load example_stdlib
      ((Save example_stdlib (example_world\<lparr>cache := (cache example_world)\<lparr>data := example_table\<rparr>\<rparr>))
         \<lparr>cache := New ''/var/lib/cert-monitor/cache.json''\<rparr>))) = example_table
   \<and> example_table ''/certs/a.pem'' =
        Some \<lparr>Fingerprint = replicate 32 7, ModTime = 1700000000 * Second, Size = 1234\<rparr>"
  using Save_Load_round_trip [where L = example_stdlib and content = "[123, 125]"
      and st = "example_world\<lparr>cache := (cache example_world)\<lparr>data := example_table\<rparr>\<rparr>"]
  by (simp add: example_world_def New_def example_fs_def example_stdlib_def)
     (simp add: example_table_def)

section \<open>Leaf-certificate extraction\<close>

lemma find_Some_valid: "find P xs = Some x \<Longrightarrow> P x \<and> x \<in> set xs"
  by (induction xs) (auto split: if_splits)

lemma parseLeaf_loop_result:
  "fst (parseLeaf_loop L path dirPath blocks st) =
     (case find (valid_block L) blocks of
        None \<Rightarrow> Inl (Error ''no valid certificate found'')
      | Some block \<Rightarrow> x509_ParseCertificate L (Bytes block))"
proof (induction blocks arbitrary: st)
  case Nil
  show ?case by simp
next
  case (Cons block rest)
  show ?case
  proof (cases "Type block = ''CERTIFICATE''")
    case False
    then show ?thesis using Cons by (simp add: valid_block_def)
  next
    case True
    show ?thesis
    proof (cases "x509_ParseCertificate L (Bytes block)")
      case (Inl err)
      with True show ?thesis using Cons by (simp add: valid_block_def ParseCertificate_def)
    next
      case (Inr c)
      with True show ?thesis by (simp add: valid_block_def ParseCertificate_def)
    qed
  qed
qed

text \<open>
  C4. For a file with a PEM-family extension (any extension but \<^verbatim>\<open>.der\<close>), the result of
  \<open>parseLeafCertificate\<close> is the certificate of the first block, in the order of decoding,
  whose type is "CERTIFICATE" and which parses; later blocks are ignored. It is the error
  "no valid certificate found" exactly when no block both has that type and parses.
\<close>
theorem parseLeafCertificate_first_valid_block:
  assumes "ext \<noteq> ''.der''"
  shows "fst (parseLeafCertificate L raw ext path dirPath st) =
           (case find (valid_block L) (pem_Decode_all L raw) of
              None \<Rightarrow> Inl (Error ''no valid certificate found'')
            | Some block \<Rightarrow> x509_ParseCertificate L (Bytes block))
         \<and> (fst (parseLeafCertificate L raw ext path dirPath st) = Inl (Error ''no valid certificate found'')
              \<longleftrightarrow> \<not> (\<exists>block \<in> set (pem_Decode_all L raw). valid_block L block))"
proof -
  have r: "fst (parseLeafCertificate L raw ext path dirPath st) =
           (case find (valid_block L) (pem_Decode_all L raw) of
              None \<Rightarrow> Inl (Error ''no valid certificate found'')
            | Some block \<Rightarrow> x509_ParseCertificate L (Bytes block))"
    using assms by (simp add: parseLeafCertificate_def parseLeaf_loop_result)
  show ?thesis
  proof (cases "find (valid_block L) (pem_Decode_all L raw)")
    case None
    then have "\<not> (\<exists>block \<in> set (pem_Decode_all L raw). valid_block L block)"
      by (simp add: find_None_iff)
    with None r show ?thesis by simp
  next
    case (Some b)
    then have vb: "valid_block L b" and mem: "b \<in> set (pem_Decode_all L raw)"
      by (auto dest: find_Some_valid)
    then obtain c where c: "x509_ParseCertificate L (Bytes b) = Inr c"
      by (auto simp: valid_block_def split: sum.splits)
    from vb mem have "\<exists>block \<in> set (pem_Decode_all L raw). valid_block L block" by blast
    with Some r c show ?thesis by simp
  qed
qed

text \<open>
  A file with a private key, a malformed certificate, the leaf and an intermediate yields
  the leaf; a file without PEM data fails.
\<close>
theorem parseLeafCertificate_first_valid_block_witness:
  "''.pem'' \<noteq> ''.der'' \<and>
   fst (parseLeafCertificate example_stdlib [45] ''.pem'' ''/certs/a.pem'' ''/certs'' example_world)
     = Inr example_cert \<and>
   fst (parseLeafCertificate example_stdlib [46] ''.pem'' ''/certs/a.pem'' ''/certs'' example_world)
     = Inl (Error ''no valid certificate found'')"
proof -
  have e: "''.pem'' \<noteq> ''.der''" by simp
  have b1: "pem_Decode_all example_stdlib [45] = example_blocks"
    and b2: "pem_Decode_all example_stdlib [46] = []"
    by (simp_all add: example_stdlib_def)
  have p: "x509_ParseCertificate example_stdlib [9] = Inl (Error ''x509: malformed certificate'')"
    "x509_ParseCertificate example_stdlib [1] = Inr example_cert"
    by (simp_all add: example_stdlib_def)
  have f: "find (valid_block example_stdlib) example_blocks = Some \<lparr>Type = ''CERTIFICATE'', Bytes = [1]\<rparr>"
    by (simp add: example_blocks_def valid_block_def p)
  show ?thesis
    using parseLeafCertificate_first_valid_block [OF e, where L = example_stdlib and raw = "[45]"
        and path = "''/certs/a.pem''" and dirPath = "''/certs''" and st = example_world]
      parseLeafCertificate_first_valid_block [OF e, where L = example_stdlib and raw = "[46]"
        and path = "''/certs/a.pem''" and dirPath = "''/certs''" and st = example_world]
    by (simp add: b1 b2 f p)
qed

section \<open>The directory scan\<close>

lemma all_events_emit [simp]: "all_events P (emit e st) = (all_events P st \<and> P e)"
  by (auto simp: all_events_def)

lemma all_events_backoff_update [simp]: "all_events P (st\<lparr>backoff := b\<rparr>) = all_events P st"
  and all_events_cache_update [simp]: "all_events P (st\<lparr>cache := c\<rparr>) = all_events P st"
  by (simp_all add: all_events_def)

lemma unguarded_event_simps [simp]:
  "unguarded_event (Metric m) = unguarded m"
  "unguarded_event (Log l msg)"
  "unguarded_event (FileRead path)"
  "unguarded_event (CertParse der)"
  by (simp_all add: unguarded_event_def)

lemma sanitizeLabelValue_unguarded:
  "all_events unguarded_event st \<Longrightarrow> all_events unguarded_event (snd (sanitizeLabelValue val st))"
  by (simp add: sanitizeLabelValue_def Let_def)

lemma parseLeaf_loop_unguarded:
  "all_events unguarded_event st \<Longrightarrow>
   all_events unguarded_event (snd (parseLeaf_loop L path dirPath blocks st))"
  by (induction blocks arbitrary: st) (auto simp: ParseCertificate_def split: sum.splits)

lemma parseLeafCertificate_unguarded:
  "all_events unguarded_event st \<Longrightarrow>
   all_events unguarded_event (snd (parseLeafCertificate L raw ext path dirPath st))"
  by (auto simp: parseLeafCertificate_def ParseCertificate_def parseLeaf_loop_unguarded split: sum.splits)

lemma sanitizeLabelValue_unguarded':
  "sanitizeLabelValue val st = (v, st') \<Longrightarrow> all_events unguarded_event st \<Longrightarrow> all_events unguarded_event st'"
  using sanitizeLabelValue_unguarded [of st val] by simp

lemma processCertificate_unguarded:
  assumes gate: "dryRun \<or> \<not> shouldWriteMetrics E" and inv: "all_events unguarded_event st"
  shows "all_events unguarded_event (snd (processCertificate L E cert path dirPath seen hostname dryRun st))"
proof -
  obtain f s1 where 1: "sanitizeLabelValue (Base path) st = (f, s1)" by fastforce
  obtain cn s2 where 2: "sanitizeLabelValue (Subject_CommonName cert) s1 = (cn, s2)" by fastforce
  obtain issuer s3 where 3: "sanitizeLabelValue (Issuer_CommonName cert) s2 = (issuer, s3)" by fastforce
  obtain sans s4 where 4:
    "(if length (DNSNames cert) > 0
      then sanitizeLabelValue (Join_strings (take MaxSANsExported (DNSNames cert)) '','') s3
      else ([], s3)) = (sans, s4)" by fastforce
  have i1: "all_events unguarded_event s1" using 1 inv by (rule sanitizeLabelValue_unguarded')
  have i2: "all_events unguarded_event s2" using 2 i1 by (rule sanitizeLabelValue_unguarded')
  have i3: "all_events unguarded_event s3" using 3 i2 by (rule sanitizeLabelValue_unguarded')
  have i4: "all_events unguarded_event s4"
    using 4 i3 by (auto split: if_splits dest: sanitizeLabelValue_unguarded')
  have "snd (processCertificate L E cert path dirPath seen hostname dryRun st)
        = emit (Log Info ''Parsed leaf certificate'') s4"
    using gate unfolding processCertificate_def Let_def 1 2 3 4 prod.case by auto
  with i4 show ?thesis by simp
qed

lemma parseLeafCertificate_unguarded':
  "parseLeafCertificate L raw ext path dirPath st = (r, st') \<Longrightarrow>
   all_events unguarded_event st \<Longrightarrow> all_events unguarded_event st'"
  using parseLeafCertificate_unguarded [of st L raw ext path dirPath] by simp

lemma processCertificate_unguarded':
  "processCertificate L E cert path dirPath seen hostname dryRun st = (seen', st') \<Longrightarrow>
   dryRun \<or> \<not> shouldWriteMetrics E \<Longrightarrow>
   all_events unguarded_event st \<Longrightarrow> all_events unguarded_event st'"
  using processCertificate_unguarded [of dryRun E st L cert path dirPath seen hostname] by simp

lemma SetEntryAtomic_all_events [simp]:
  "all_events P (SetEntryAtomic path fp info st) = all_events P st"
  by (simp add: SetEntryAtomic_def)

lemma fs_SetEntryAtomic [simp]: "fs (SetEntryAtomic path fp info st) = fs st"
  and backoff_SetEntryAtomic [simp]: "backoff (SetEntryAtomic path fp info st) = backoff st"
  by (simp_all add: SetEntryAtomic_def)

lemma walkFn_err:
  "err \<noteq> None \<Longrightarrow> walkFn L E dirPath dryRun hostname path d err (seen, st) = (None, seen, st)"
  by (simp add: walkFn_def)

lemma walkFn_nil:
  "walkFn L E dirPath dryRun hostname path None err (seen, st) = (None, seen, st)"
  by (simp add: walkFn_def)

lemma walkFn_dir:
  "IsDir e \<Longrightarrow>
   walkFn L E dirPath dryRun hostname path (Some e) None (seen, st) =
     (if ToLower (Name e) = ''old'' \<or> ToLower (Name e) = ''working''
      then (Some SkipDir, seen, emit (Log Info ''Skipping subdirectory'') st)
      else (None, seen, st))"
  by (simp add: walkFn_def)

lemma walkFn_other_file:
  "\<not> IsDir e \<Longrightarrow> \<not> cert_ext (Name e) \<Longrightarrow>
   walkFn L E dirPath dryRun hostname path (Some e) None (seen, st) = (None, seen, st)"
  by (simp add: walkFn_def cert_ext_def Let_def)

lemma walkFn_stat_error:
  "\<not> IsDir e \<Longrightarrow> cert_ext (Name e) \<Longrightarrow> Stat (fs st) path = Inl x \<Longrightarrow>
   walkFn L E dirPath dryRun hostname path (Some e) None (seen, st) =
     (None, seen, emit (Metric (CertParseErrors_Inc path)) (emit (Log Warn ''Stat error'') st))"
  by (auto simp: walkFn_def cert_ext_def Let_def GetEntryAtomic_def)

lemma walkFn_cache_hit:
  "\<not> IsDir e \<Longrightarrow> cert_ext (Name e) \<Longrightarrow> Stat (fs st) path = Inr info \<Longrightarrow>
   cache_hit st path info \<Longrightarrow>
   walkFn L E dirPath dryRun hostname path (Some e) None (seen, st) =
     (None, seen, emit (Log Debug ''Skipping file with unchanged ModTime and Size'')
                    (emit (Metric (CertFilesTotal_Inc dirPath)) st))"
  by (auto simp: walkFn_def cert_ext_def Let_def GetEntryAtomic_def cache_hit_def Equal_def
           split: option.splits)

lemma walkFn_read_error:
  "\<not> IsDir e \<Longrightarrow> cert_ext (Name e) \<Longrightarrow> Stat (fs st) path = Inr info \<Longrightarrow>
   \<not> cache_hit st path info \<Longrightarrow> ReadFile (fs st) path = Inl x \<Longrightarrow>
   walkFn L E dirPath dryRun hostname path (Some e) None (seen, st) =
     (None, seen, emit (Metric (CertParseErrors_Inc path)) (emit (Log Warn ''Read error'')
                    (emit (FileRead path) (emit (Metric (CertFilesTotal_Inc dirPath)) st))))"
  by (auto simp: walkFn_def cert_ext_def Let_def GetEntryAtomic_def cache_hit_def Equal_def
           split: option.splits)

lemma walkFn_no_certificate:
  "\<not> IsDir e \<Longrightarrow> cert_ext (Name e) \<Longrightarrow> Stat (fs st) path = Inr info \<Longrightarrow>
   \<not> cache_hit st path info \<Longrightarrow> ReadFile (fs st) path = Inr raw \<Longrightarrow>
   parseLeafCertificate L raw (ToLower (Ext (Name e))) path dirPath
     (emit (FileRead path) (emit (Metric (CertFilesTotal_Inc dirPath)) st)) = (Inl x, st2) \<Longrightarrow>
   walkFn L E dirPath dryRun hostname path (Some e) None (seen, st) =
     (None, seen, emit (Log Debug ''No valid certificate found in file'') st2)"
  by (auto simp: walkFn_def cert_ext_def Let_def GetEntryAtomic_def cache_hit_def Equal_def
           split: option.splits)

lemma walkFn_certificate:
  "\<not> IsDir e \<Longrightarrow> cert_ext (Name e) \<Longrightarrow> Stat (fs st) path = Inr info \<Longrightarrow>
   \<not> cache_hit st path info \<Longrightarrow> ReadFile (fs st) path = Inr raw \<Longrightarrow>
   parseLeafCertificate L raw (ToLower (Ext (Name e))) path dirPath
     (emit (FileRead path) (emit (Metric (CertFilesTotal_Inc dirPath)) st)) = (Inr leafCert, st2) \<Longrightarrow>
   processCertificate L E leafCert path dirPath seen hostname dryRun st2 = (seen', st3) \<Longrightarrow>
   walkFn L E dirPath dryRun hostname path (Some e) None (seen, st) =
     (None, seen', SetEntryAtomic path (sha256_Sum256 L (Raw leafCert)) info st3)"
  by (auto simp: walkFn_def cert_ext_def Let_def GetEntryAtomic_def cache_hit_def Equal_def
           split: option.splits)

lemma walkFn_cases [case_names unchanged skipdir stat_error cache_hit read_error no_certificate certificate]:
  obtains
    "walkFn L E dirPath dryRun hostname path d err (seen, st) = (None, seen, st)"
      "err \<noteq> None \<or> d = None \<or> (\<exists>e. d = Some e \<and> (IsDir e \<or> \<not> cert_ext (Name e)))"
  | e where "d = Some e" "err = None" "IsDir e"
      "walkFn L E dirPath dryRun hostname path d err (seen, st) =
         (Some SkipDir, seen, emit (Log Info ''Skipping subdirectory'') st)"
  | e x where "d = Some e" "err = None" "\<not> IsDir e" "cert_ext (Name e)" "Stat (fs st) path = Inl x"
      "walkFn L E dirPath dryRun hostname path d err (seen, st) =
         (None, seen, emit (Metric (CertParseErrors_Inc path)) (emit (Log Warn ''Stat error'') st))"
  | e info where "d = Some e" "err = None" "\<not> IsDir e" "cert_ext (Name e)"
      "Stat (fs st) path = Inr info" "cache_hit st path info"
      "walkFn L E dirPath dryRun hostname path d err (seen, st) =
         (None, seen, emit (Log Debug ''Skipping file with unchanged ModTime and Size'')
                        (emit (Metric (CertFilesTotal_Inc dirPath)) st))"
  | e info x where "d = Some e" "err = None" "\<not> IsDir e" "cert_ext (Name e)"
      "Stat (fs st) path = Inr info" "\<not> cache_hit st path info" "ReadFile (fs st) path = Inl x"
      "walkFn L E dirPath dryRun hostname path d err (seen, st) =
         (None, seen, emit (Metric (CertParseErrors_Inc path)) (emit (Log Warn ''Read error'')
                        (emit (FileRead path) (emit (Metric (CertFilesTotal_Inc dirPath)) st))))"
  | e info raw x st2 where "d = Some e" "err = None" "\<not> IsDir e" "cert_ext (Name e)"
      "Stat (fs st) path = Inr info" "\<not> cache_hit st path info" "ReadFile (fs st) path = Inr raw"
      "parseLeafCertificate L raw (ToLower (Ext (Name e))) path dirPath
         (emit (FileRead path) (emit (Metric (CertFilesTotal_Inc dirPath)) st)) = (Inl x, st2)"
      "walkFn L E dirPath dryRun hostname path d err (seen, st) =
         (None, seen, emit (Log Debug ''No valid certificate found in file'') st2)"
  | e info raw leafCert st2 seen' st3 where "d = Some e" "err = None" "\<not> IsDir e" "cert_ext (Name e)"
      "Stat (fs st) path = Inr info" "\<not> cache_hit st path info" "ReadFile (fs st) path = Inr raw"
      "parseLeafCertificate L raw (ToLower (Ext (Name e))) path dirPath
         (emit (FileRead path) (emit (Metric (CertFilesTotal_Inc dirPath)) st)) = (Inr leafCert, st2)"
      "processCertificate L E leafCert path dirPath seen hostname dryRun st2 = (seen', st3)"
      "walkFn L E dirPath dryRun hostname path d err (seen, st) =
         (None, seen', SetEntryAtomic path (sha256_Sum256 L (Raw leafCert)) info st3)"
proof (cases "err \<noteq> None \<or> d = None")
  case True
  then have "walkFn L E dirPath dryRun hostname path d err (seen, st) = (None, seen, st)"
    by (auto simp: walkFn_err walkFn_nil)
  with True that(1) show ?thesis by blast
next
  case False
  then obtain e where d: "d = Some e" and err: "err = None" by auto
  show ?thesis
  proof (cases "IsDir e")
    case True
    show ?thesis
    proof (cases "ToLower (Name e) = ''old'' \<or> ToLower (Name e) = ''working''")
      case skip: True
      with True d err that(2) show ?thesis by (simp add: walkFn_dir)
    next
      case noskip: False
      with True d err have "walkFn L E dirPath dryRun hostname path d err (seen, st) = (None, seen, st)"
        by (simp add: walkFn_dir)
      with True d that(1) show ?thesis by blast
    qed
  next
    case notdir: False
    show ?thesis
    proof (cases "cert_ext (Name e)")
      case False
      with notdir d err have "walkFn L E dirPath dryRun hostname path d err (seen, st) = (None, seen, st)"
        by (simp add: walkFn_other_file)
      with False d that(1) show ?thesis by blast
    next
      case ext: True
      show ?thesis
      proof (cases "Stat (fs st) path")
        case (Inl x)
        with notdir ext d err that(3) show ?thesis by (simp add: walkFn_stat_error)
      next
        case (Inr info)
        show ?thesis
        proof (cases "cache_hit st path info")
          case True
          with notdir ext d err Inr that(4) show ?thesis by (simp add: walkFn_cache_hit)
        next
          case miss: False
          show ?thesis
          proof (cases "ReadFile (fs st) path")
            case (Inl x)
            with notdir ext d err Inr miss that(5) show ?thesis by (simp add: walkFn_read_error)
          next
            case raw: (Inr raw)
            obtain r st2 where p: "parseLeafCertificate L raw (ToLower (Ext (Name e))) path dirPath
                (emit (FileRead path) (emit (Metric (CertFilesTotal_Inc dirPath)) st)) = (r, st2)"
              by fastforce
            show ?thesis
            proof (cases r)
              case (Inl x)
              with notdir ext d err Inr miss raw p that(6) show ?thesis
                by (simp add: walkFn_no_certificate)
            next
              case c: (Inr leafCert)
              obtain seen' st3 where q:
                "processCertificate L E leafCert path dirPath seen hostname dryRun st2 = (seen', st3)"
                by fastforce
              from notdir ext Inr miss raw p c q
              have "walkFn L E dirPath dryRun hostname path (Some e) None (seen, st) =
                      (None, seen', SetEntryAtomic path (sha256_Sum256 L (Raw leafCert)) info st3)"
                by (intro walkFn_certificate) simp_all
              with notdir ext d err Inr miss raw p c q that(7) show ?thesis by simp
            qed
          qed
        qed
      qed
    qed
  qed
qed

lemma walkFn_unguarded:
  assumes gate: "dryRun \<or> \<not> shouldWriteMetrics E"
    and inv: "all_events unguarded_event st"
  shows "all_events unguarded_event (snd (snd (walkFn L E dirPath dryRun hostname path d err (seen, st))))"
proof (cases rule: walkFn_cases [where L = L and E = E and dirPath = dirPath and dryRun = dryRun
      and hostname = hostname and path = path and d = d and err = err and seen = seen and st = st])
  case (no_certificate e info raw x st2)
  have "all_events unguarded_event st2"
    using no_certificate(8) by (rule parseLeafCertificate_unguarded') (simp add: inv)
  with no_certificate(9) show ?thesis by simp
next
  case (certificate e info raw leafCert st2 seen' st3)
  have "all_events unguarded_event st2"
    using certificate(8) by (rule parseLeafCertificate_unguarded') (simp add: inv)
  with certificate(9) gate have "all_events unguarded_event st3"
    by (rule processCertificate_unguarded')
  with certificate(10) show ?thesis by simp
qed (simp_all add: inv)

subsection \<open>The walk preserves what its callback preserves\<close>

lemma walkDir_invariant:
  assumes step: "\<And>path d err s. I s \<Longrightarrow> I (snd (fn path d err s))"
  shows "I s \<Longrightarrow> I (snd (walkDir L fn path d s))"
    and "I s \<Longrightarrow> I (snd (walkDir_entries L fn path ds s))"
  using step
proof (induction L fn path d s and L fn path ds s rule: walkDir_walkDir_entries.induct)
  case (1 L fn path name isDir rerr entries s)
  let ?d = "DirEntry name isDir rerr entries"
  obtain x y where f1: "fn path (Some ?d) None s = (x, y)" by fastforce
  have Iy: "I y" using "1.prems"(2) [OF "1.prems"(1), of path "Some ?d" None] f1 by simp
  show ?case
  proof (cases "x = None \<and> isDir")
    case False
    then show ?thesis using f1 Iy by (auto simp: Let_def split: option.splits)
  next
    case True
    show ?thesis
    proof (cases rerr)
      case None
      have "I (snd (walkDir_entries L fn path entries y))"
        using "1.IH"(1) [OF refl f1 [symmetric] _ _ None Iy "1.prems"(2)] True by simp
      with True None f1 show ?thesis by (simp add: Let_def)
    next
      case (Some x2)
      obtain xaa ya where f2: "fn path (Some ?d) (Some x2) y = (xaa, ya)" by fastforce
      have Iya: "I ya" using "1.prems"(2) [OF Iy, of path "Some ?d" "Some x2"] f2 by simp
      show ?thesis
      proof (cases xaa)
        case None
        have "I (snd (walkDir_entries L fn path entries ya))"
          using "1.IH"(2) [OF refl f1 [symmetric] _ _ Some f2 [symmetric] None Iya "1.prems"(2)] True
          by simp
        with True Some f1 f2 None show ?thesis by (simp add: Let_def)
      next
        case (Some e)
        with True \<open>rerr = Some x2\<close> f1 f2 Iya show ?thesis by (simp add: Let_def)
      qed
    qed
  qed
next
  case (2 L fn path s)
  then show ?case by simp
next
  case (3 L fn path d1 dirs s)
  obtain x y where w: "walkDir L fn (filepath_Join L path (Name d1)) d1 s = (x, y)" by fastforce
  have Iy: "I y" using "3.IH"(1) [OF "3.prems"] w by simp
  show ?case
  proof (cases x)
    case None
    have "I (snd (walkDir_entries L fn path dirs y))"
      using "3.IH"(2) [OF w [symmetric] None Iy "3.prems"(2)] by simp
    with w None show ?thesis by simp
  next
    case (Some e)
    with w Iy show ?thesis by simp
  qed
qed

lemma WalkDir_invariant:
  assumes step: "\<And>path d err s. I s \<Longrightarrow> I (snd (fn path d err s))" and "I s"
  shows "I (snd (WalkDir L fsys root fn s))"
proof (cases "Lstat fsys root")
  case (Inl err)
  then show ?thesis
    using step [OF assms(2), of root None "Some err"]
    by (auto simp: WalkDir_def split: prod.splits)
next
  case (Inr info)
  then show ?thesis
    using walkDir_invariant(1) [of I fn s L root info, OF step assms(2)]
    by (auto simp: WalkDir_def split: prod.splits)
qed

subsection \<open>The walk returns no error when its callback returns none but SkipDir\<close>

lemma walkDir_no_error:
  assumes quiet: "\<And>path d err s. fst (fn path d err s) = None \<or> fst (fn path d err s) = Some SkipDir"
  shows "fst (walkDir L fn path d s) = None \<or> fst (walkDir L fn path d s) = Some SkipDir"
    and "fst (walkDir_entries L fn path ds s) = None"
  using quiet
proof (induction L fn path d s and L fn path ds s rule: walkDir_walkDir_entries.induct)
  case (1 L fn path name isDir rerr entries s)
  let ?d = "DirEntry name isDir rerr entries"
  obtain x y where f1: "fn path (Some ?d) None s = (x, y)" by fastforce
  have x: "x = None \<or> x = Some SkipDir" using "1.prems" [of path "Some ?d" None s] f1 by simp
  show ?case
  proof (cases "x = None \<and> isDir")
    case False
    then show ?thesis using f1 x by (auto simp: Let_def)
  next
    case True
    show ?thesis
    proof (cases rerr)
      case None
      have "fst (walkDir_entries L fn path entries y) = None"
        using "1.IH"(1) [OF refl f1 [symmetric] _ _ None "1.prems"] True by simp
      with True None f1 show ?thesis by (simp add: Let_def)
    next
      case (Some x2)
      obtain xaa ya where f2: "fn path (Some ?d) (Some x2) y = (xaa, ya)" by fastforce
      have xaa: "xaa = None \<or> xaa = Some SkipDir"
        using "1.prems" [of path "Some ?d" "Some x2" y] f2 by simp
      show ?thesis
      proof (cases xaa)
        case None
        have "fst (walkDir_entries L fn path entries ya) = None"
          using "1.IH"(2) [OF refl f1 [symmetric] _ _ Some f2 [symmetric] None "1.prems"] True
          by simp
        with True Some f1 f2 None show ?thesis by (simp add: Let_def)
      next
        case (Some e)
        with True \<open>rerr = Some x2\<close> f1 f2 xaa show ?thesis by (simp add: Let_def)
      qed
    qed
  qed
next
  case (2 L fn path s)
  then show ?case by simp
next
  case (3 L fn path d1 dirs s)
  obtain x y where w: "walkDir L fn (filepath_Join L path (Name d1)) d1 s = (x, y)" by fastforce
  have x: "x = None \<or> x = Some SkipDir" using "3.IH"(1) [OF "3.prems"] w by simp
  show ?case
  proof (cases x)
    case None
    have "fst (walkDir_entries L fn path dirs y) = None"
      using "3.IH"(2) [OF w [symmetric] None "3.prems"] by simp
    with w None show ?thesis by simp
  next
    case (Some e)
    with w x show ?thesis by simp
  qed
qed

lemma WalkDir_no_error:
  assumes quiet: "\<And>path d err s. fst (fn path d err s) = None \<or> fst (fn path d err s) = Some SkipDir"
  shows "fst (WalkDir L fsys root fn s) = None"
proof (cases "Lstat fsys root")
  case (Inl err)
  then show ?thesis
    using quiet [of root None "Some err" s]
    by (auto simp: WalkDir_def split: prod.splits)
next
  case (Inr info)
  then show ?thesis
    using walkDir_no_error(1) [of fn L root info s, OF quiet]
    by (auto simp: WalkDir_def split: prod.splits)
qed

lemma walkFn_quiet:
  "fst (walkFn L E dirPath dryRun hostname path d err s) = None \<or>
   fst (walkFn L E dirPath dryRun hostname path d err s) = Some SkipDir"
proof -
  obtain seen st where s: "s = (seen, st)" by (cases s)
  show ?thesis
    unfolding s
    by (cases rule: walkFn_cases [where L = L and E = E and dirPath = dirPath and dryRun = dryRun
          and hostname = hostname and path = path and d = d and err = err and seen = seen and st = st])
       simp_all
qed

lemma WalkDir_walkFn_no_error:
  "fst (WalkDir L fsys root (walkFn L E dirPath dryRun hostname) s) = None"
  by (rule WalkDir_no_error) (rule walkFn_quiet)

subsection \<open>ProcessDirectory with the metrics gate closed\<close>

lemma shouldSkipScan_all_events:
  assumes "\<And>l msg. P (Log l msg)" and "all_events P st"
  shows "all_events P (snd (shouldSkipScan now_t dir st))"
  using assms by (simp add: shouldSkipScan_def split: option.splits)

lemma registerScanFailure_all_events:
  assumes "\<And>l msg. P (Log l msg)" and "all_events P st"
  shows "all_events P (registerScanFailure now_t j dir st)"
  using assms by (simp add: registerScanFailure_def Let_def)

lemma ProcessDirectory_unguarded:
  assumes gate: "dryRun \<or> \<not> shouldWriteMetrics E"
    and inv: "all_events unguarded_event st"
  shows "all_events unguarded_event (snd (ProcessDirectory L E dirPath dryRun st))"
proof -
  define st1 where "st1 = (if \<not> dryRun \<and> \<not> shouldWriteMetrics E
                then emit (Log Info ''Dry-run mode active, metrics writes are disabled'') st
                else st)"
  have i1: "all_events unguarded_event st1" using inv by (simp add: st1_def)
  obtain skip st2 where sk: "shouldSkipScan (now E) dirPath st1 = (skip, st2)" by fastforce
  have i2: "all_events unguarded_event st2"
    using shouldSkipScan_all_events [of unguarded_event st1 "now E" dirPath] i1 sk by simp
  show ?thesis
  proof (cases skip)
    case True
    with sk i2 show ?thesis
      by (simp add: ProcessDirectory_def st1_def [symmetric])
  next
    case False
    show ?thesis
    proof (cases "case Stat (fs st2) dirPath of Inl err \<Rightarrow> True | Inr info \<Rightarrow> \<not> info_IsDir info")
      case True
      have "all_events unguarded_event (registerScanFailure (now E) (jitter E) dirPath
                           (emit (Log Warn ''Skipping non-directory'') st2))"
        by (rule registerScanFailure_all_events) (simp_all add: i2)
      with True False sk show ?thesis
        by (simp add: ProcessDirectory_def st1_def [symmetric] deferred_ScanDuration_def)
    next
      case isdir: False
      let ?fn = "walkFn L E dirPath dryRun (Hostname E)"
      obtain err seen st3 where w: "WalkDir L (fs st2) dirPath ?fn (Map.empty, st2) = (err, seen, st3)"
        by (metis prod_cases3)
      have "all_events unguarded_event (snd (snd (WalkDir L (fs st2) dirPath ?fn (Map.empty, st2))))"
      proof (rule WalkDir_invariant [where I = "\<lambda>s. all_events unguarded_event (snd s)"])
        fix path d err and s :: "(string \<rightharpoonup> int) \<times> world"
        assume "all_events unguarded_event (snd s)"
        then show "all_events unguarded_event (snd (snd (walkFn L E dirPath dryRun (Hostname E) path d err s)))"
          using walkFn_unguarded [OF gate, of "snd s" L dirPath "Hostname E" path d err "fst s"] by simp
      qed (simp add: i2)
      with w have i3: "all_events unguarded_event st3" by simp
      have "err = None" using WalkDir_walkFn_no_error [of L "fs st2" dirPath E dirPath dryRun "Hostname E" "(Map.empty, st2)"] w
        by simp
      with isdir False sk w i3 gate show ?thesis
        by (simp add: ProcessDirectory_def st1_def [symmetric] deferred_ScanDuration_def
              deferred_LastScan_def)
    qed
  qed
qed

text \<open>
  What the guard \<^verbatim>\<open>!dryRun && s.shouldWriteMetrics()\<close> achieves. For every scan of a
  directory with \<open>dryRun\<close> set or metric writes disabled, every metric written during the
  scan is one of the five that the code writes outside the guard: no per-certificate gauge
  or counter and no last-scan timestamp is written.
\<close>
lemma ProcessDirectory_gate_closed:
  assumes "dryRun \<or> \<not> shouldWriteMetrics E"
  shows "\<forall>m. Metric m \<in> set (trace (snd (ProcessDirectory L E dirPath dryRun (st\<lparr>trace := []\<rparr>))))
           \<longrightarrow> unguarded m"
proof -
  have "all_events unguarded_event (st\<lparr>trace := []\<rparr>)" by (simp add: all_events_def)
  then have "all_events unguarded_event (snd (ProcessDirectory L E dirPath dryRun (st\<lparr>trace := []\<rparr>)))"
    using assms by (intro ProcessDirectory_unguarded)
  then show ?thesis by (auto simp: all_events_def unguarded_event_def)
qed

lemma scan_world_fields [simp]:
  "fs scan_world = scan_fs" "backoff scan_world = Map.empty" "trace scan_world = []"
  "cache scan_world = New ''/var/lib/cert-monitor/cache.json''"
  by (simp_all add: scan_world_def example_world_def)

lemma scan_fs_fields [simp]:
  "Stat scan_fs ''/certs'' = Inr \<lparr>info_ModTime = 1690000000 * Second, info_Size = 4096, info_IsDir = True\<rparr>"
  "Stat scan_fs ''/certs/a.pem'' = Inr \<lparr>info_ModTime = 1700000000 * Second, info_Size = 1234, info_IsDir = False\<rparr>"
  "Stat scan_fs ''/certs/key.pem'' = Inr \<lparr>info_ModTime = 1700000000 * Second, info_Size = 1704, info_IsDir = False\<rparr>"
  "Lstat scan_fs ''/certs'' = Inr (DirEntry ''certs'' True None
                               [DirEntry ''a.pem'' False None [],
                                DirEntry ''key.pem'' False None [],
                                DirEntry ''sub'' True (Some (Error ''permission denied'')) []])"
  "ReadFile scan_fs ''/certs/a.pem'' = Inr [45]"
  "ReadFile scan_fs ''/certs/key.pem'' = Inr [46]"
  by (simp_all add: scan_fs_def)

lemma example_stdlib_fields [simp]:
  "filepath_Join example_stdlib dir name = dir @ ''/'' @ name"
  "pem_Decode_all example_stdlib [45] = example_blocks"
  "pem_Decode_all example_stdlib [46] = []"
  "x509_ParseCertificate example_stdlib [9] = Inl (Error ''x509: malformed certificate'')"
  "x509_ParseCertificate example_stdlib [1] = Inr example_cert"
  "sha256_Sum256 example_stdlib [1] = 1 # replicate 31 0"
  by (simp_all add: example_stdlib_def)

lemma example_env_fields [simp]:
  "config_Get example_env = Some example_config" "now example_env = 1800000000 * Second"
  "finish example_env = 1800000001 * Second" "jitter example_env = 3 * Second"
  "Hostname example_env = ''node1''"
  by (simp_all add: example_env_def)

lemmas string_defs = ToLower_def lower_char_def lower_of_def upper_letters_def lower_letters_def
  Ext_def Base_def TrimSpace_def isSpace_def cert_ext_def

lemma example_config_fields [simp]:
  "DryRun example_config = False" "ExpiryThresholdDays example_config = 45"
  "EnableWeakCryptoMetrics example_config = True"
  by (simp_all add: example_config_def)

lemma example_duration [simp]: "Sub (1800000001 * Second) (1800000000 * Second) = Second"
  by (simp add: Sub_def sat64_def Second_def)

lemma example_digest [simp]: "Sprintf_x (1 # replicate 31 0) = example_key"
  unfolding example_key_def by code_simp

lemma example_cert_fields [simp]:
  "Subject_CommonName example_cert = ''digicert test root''"
  "Issuer_CommonName example_cert = ''DigiCert Test Root''"
  "NotBefore example_cert = 0" "NotAfter example_cert = 4000000000 * Second"
  "DNSNames example_cert = [''a.example.org'']"
  "SignatureAlgorithm example_cert = SHA256WithRSA" "Raw example_cert = [1]"
  by (simp_all add: example_cert_def del: power_numeral)

lemma example_cert_class [simp]:
  "DetermineIssuerCode example_cert = 33" "IsWeakKey example_cert"
  "\<not> IsDeprecatedSigAlg SHA256WithRSA"
  "\<not> Sub (4000000000 * Second) (1800000000 * Second) \<le> wrap64 (wrap64 1080 * Hour)"
  "Unix (4000000000 * Second) = 4000000000" "Unix 0 = 0"
     apply (simp add: DetermineIssuerCode_def fold_eq_def lower_of_def upper_letters_def lower_letters_def)
    apply (simp add: IsWeakKey_def example_cert_def BitLen_1024 del: power_numeral)
    apply (simp add: IsDeprecatedSigAlg_def)
   apply (simp add: Sub_def sat64_def wrap64_def Hour_def Minute_def Second_def)
  apply (simp_all add: Unix_def Second_def)
  done

lemmas scan_defs2 = ProcessDirectory_def shouldSkipScan_def WalkDir_def walkFn_def GetEntryAtomic_def
  SetEntryAtomic_def parseLeafCertificate_def ParseCertificate_def processCertificate_def
  sanitizeLabelValue_def export_metrics_def shouldWriteMetrics_def deferred_LastScan_def
  deferred_ScanDuration_def registerScanFailure_def Let_def New_def
  example_blocks_def MaxLabelLength_def MaxSANsExported_def seen_count_def

lemma dry_config_fields [simp]:
  "config_Get (example_env\<lparr>config_Get := Some (example_config\<lparr>DryRun := True\<rparr>)\<rparr>)
     = Some (example_config\<lparr>DryRun := True\<rparr>)"
  by simp

text \<open>
  C1 fails on the code. A dry run of \<^verbatim>\<open>/certs\<close> (\<^verbatim>\<open>a.pem\<close> holds a block that does not
  parse and a leaf, \<^verbatim>\<open>key.pem\<close> holds no certificate) reads and parses the files, returns
  the fingerprint of the leaf and logs, and it writes to the metrics sink: the files-seen
  counter is incremented for each of the two files, the parse-error counter for the block
  that does not parse, the certs-parsed counter for the leaf, and the scan duration is
  observed. The same writes happen in a call with \<open>dryRun\<close> false under a configuration
  with \<^verbatim>\<open>DryRun\<close> set, right after the log line that says that metrics writes are
  disabled. The events are listed in the order in which they happen.
\<close>
theorem ProcessDirectory_dry_run_writes_metrics:
  "fst (ProcessDirectory example_stdlib example_env ''/certs'' True scan_world) = Some [example_key \<mapsto> 1] \<and>
   trace (snd (ProcessDirectory example_stdlib example_env ''/certs'' True scan_world)) =
     [Metric (CertFilesTotal_Inc ''/certs''), FileRead ''/certs/a.pem'',
      CertParse [9], Log Warn ''PEM parse error'',
      Metric (CertParseErrors_Inc ''/certs/a.pem''), CertParse [1],
      Metric (CertsParsedTotal_Inc ''/certs''),
      Log Info ''Parsed leaf certificate'',
      Metric (CertFilesTotal_Inc ''/certs''), FileRead ''/certs/key.pem'',
      Log Debug ''No valid certificate found in file'',
      Metric (CertScanDuration_Observe ''/certs'' Second)] \<and>
   trace (snd (ProcessDirectory example_stdlib
                 (example_env\<lparr>config_Get := Some (example_config\<lparr>DryRun := True\<rparr>)\<rparr>)
                 ''/certs'' False scan_world)) =
     [Log Info ''Dry-run mode active, metrics writes are disabled'',
      Metric (CertFilesTotal_Inc ''/certs''), FileRead ''/certs/a.pem'',
      CertParse [9], Log Warn ''PEM parse error'',
      Metric (CertParseErrors_Inc ''/certs/a.pem''), CertParse [1],
      Metric (CertsParsedTotal_Inc ''/certs''),
      Log Info ''Parsed leaf certificate'',
      Metric (CertFilesTotal_Inc ''/certs''), FileRead ''/certs/key.pem'',
      Log Debug ''No valid certificate found in file'',
      Metric (CertScanDuration_Observe ''/certs'' Second)]"
proof (intro conjI)
  show "fst (ProcessDirectory example_stdlib example_env ''/certs'' True scan_world) = Some [example_key \<mapsto> 1]"
    by (simp add: scan_defs2 string_defs walkDir.simps walkDir_entries.simps del: power_numeral)
next
  show "trace (snd (ProcessDirectory example_stdlib example_env ''/certs'' True scan_world)) =
     [Metric (CertFilesTotal_Inc ''/certs''), FileRead ''/certs/a.pem'',
      CertParse [9], Log Warn ''PEM parse error'',
      Metric (CertParseErrors_Inc ''/certs/a.pem''), CertParse [1],
      Metric (CertsParsedTotal_Inc ''/certs''),
      Log Info ''Parsed leaf certificate'',
      Metric (CertFilesTotal_Inc ''/certs''), FileRead ''/certs/key.pem'',
      Log Debug ''No valid certificate found in file'',
      Metric (CertScanDuration_Observe ''/certs'' Second)]"
    by (simp add: scan_defs2 string_defs walkDir.simps walkDir_entries.simps del: power_numeral)
next
  show "trace (snd (ProcessDirectory example_stdlib
                 (example_env\<lparr>config_Get := Some (example_config\<lparr>DryRun := True\<rparr>)\<rparr>)
                 ''/certs'' False scan_world)) =
     [Log Info ''Dry-run mode active, metrics writes are disabled'',
      Metric (CertFilesTotal_Inc ''/certs''), FileRead ''/certs/a.pem'',
      CertParse [9], Log Warn ''PEM parse error'',
      Metric (CertParseErrors_Inc ''/certs/a.pem''), CertParse [1],
      Metric (CertsParsedTotal_Inc ''/certs''),
      Log Info ''Parsed leaf certificate'',
      Metric (CertFilesTotal_Inc ''/certs''), FileRead ''/certs/key.pem'',
      Log Debug ''No valid certificate found in file'',
      Metric (CertScanDuration_Observe ''/certs'' Second)]"
    by (simp add: scan_defs2 string_defs walkDir.simps walkDir_entries.simps del: power_numeral)
qed

subsection \<open>What only writes to the trace\<close>

lemma only_trace_refl [simp]: "only_trace st st"
  by (simp add: only_trace_def)

lemma only_trace_emit [simp]: "only_trace st (emit e st') = only_trace st st'"
  by (simp add: only_trace_def)

lemma only_trace_trans: "only_trace a b \<Longrightarrow> only_trace b c \<Longrightarrow> only_trace a c"
  by (simp add: only_trace_def)

lemma sanitizeLabelValue_frame: "sanitizeLabelValue val st = (v, st') \<Longrightarrow> only_trace st st'"
  by (auto simp: sanitizeLabelValue_def Let_def split: if_splits)

lemma parseLeaf_loop_frame: "only_trace st (snd (parseLeaf_loop L path dirPath blocks st))"
proof (induction blocks arbitrary: st)
  case Nil
  show ?case by simp
next
  case (Cons block rest)
  show ?case
  proof (cases "Type block = ''CERTIFICATE''")
    case False
    then show ?thesis using Cons by simp
  next
    case True
    show ?thesis
    proof (cases "x509_ParseCertificate L (Bytes block)")
      case (Inl err)
      let ?st1 = "emit (Metric (CertParseErrors_Inc path)) (emit (Log Warn ''PEM parse error'')
                    (emit (CertParse (Bytes block)) st))"
      have "only_trace ?st1 (snd (parseLeaf_loop L path dirPath rest ?st1))" by (rule Cons)
      moreover have "only_trace st ?st1" by simp
      ultimately show ?thesis
        using True Inl by (simp add: ParseCertificate_def only_trace_def)
    next
      case (Inr c)
      with True show ?thesis by (simp add: ParseCertificate_def)
    qed
  qed
qed

lemma parseLeafCertificate_frame:
  "parseLeafCertificate L raw ext path dirPath st = (r, st') \<Longrightarrow> only_trace st st'"
  using parseLeaf_loop_frame [of st L path dirPath "pem_Decode_all L raw"]
  by (auto simp: parseLeafCertificate_def ParseCertificate_def split: if_splits sum.splits)

lemma export_metrics_frame:
  "only_trace st (export_metrics E cert cn sanitizedFile issuer sanitizedSANs dup issuerCode hostname st)"
  by (simp add: export_metrics_def Let_def split: option.splits)

lemma processCertificate_frame:
  assumes "processCertificate L E cert path dirPath seen hostname dryRun st = (seen', st')"
  shows "only_trace st st'"
proof -
  obtain f s1 where 1: "sanitizeLabelValue (Base path) st = (f, s1)" by fastforce
  obtain cn s2 where 2: "sanitizeLabelValue (Subject_CommonName cert) s1 = (cn, s2)" by fastforce
  obtain issuer s3 where 3: "sanitizeLabelValue (Issuer_CommonName cert) s2 = (issuer, s3)" by fastforce
  obtain sans s4 where 4:
    "(if length (DNSNames cert) > 0
      then sanitizeLabelValue (Join_strings (take MaxSANsExported (DNSNames cert)) '','') s3
      else ([], s3)) = (sans, s4)" by fastforce
  have "only_trace st s1" using 1 by (rule sanitizeLabelValue_frame)
  moreover have "only_trace s1 s2" using 2 by (rule sanitizeLabelValue_frame)
  moreover have "only_trace s2 s3" using 3 by (rule sanitizeLabelValue_frame)
  moreover have "only_trace s3 s4" using 4 by (auto split: if_splits dest: sanitizeLabelValue_frame)
  ultimately have f4: "only_trace st s4" by (blast intro: only_trace_trans)
  define s5 where "s5 = (if \<not> dryRun \<and> shouldWriteMetrics E
       then export_metrics E cert cn f issuer sans
              (seen_count (seen(Sprintf_x (sha256_Sum256 L (Raw cert)) \<mapsto>
                 seen_count seen (Sprintf_x (sha256_Sum256 L (Raw cert))) + 1))
                 (Sprintf_x (sha256_Sum256 L (Raw cert))))
              (DetermineIssuerCode cert) hostname s4
       else s4)"
  have "only_trace s4 s5" unfolding s5_def by (simp add: export_metrics_frame)
  with f4 have f5: "only_trace st s5" by (rule only_trace_trans)
  have "st' = emit (Log Info ''Parsed leaf certificate'') s5"
    using assms unfolding processCertificate_def Let_def 1 2 3 4 prod.case s5_def by simp
  with f5 show ?thesis by simp
qed

subsection \<open>The callback of the scan\<close>

lemma walkFn_file_no_error:
  "\<not> IsDir e \<Longrightarrow> fst (walkFn L E dirPath dryRun hostname path (Some e) err (seen, st)) = None"
  by (cases rule: walkFn_cases [where L = L and E = E and dirPath = dirPath and dryRun = dryRun
        and hostname = hostname and path = path and d = "Some e" and err = err and seen = seen and st = st])
     simp_all

lemma walkFn_backoff_fs:
  "backoff (snd (snd (walkFn L E dirPath dryRun hostname path d err (seen, st)))) = backoff st \<and>
   fs (snd (snd (walkFn L E dirPath dryRun hostname path d err (seen, st)))) = fs st"
proof (cases rule: walkFn_cases [where L = L and E = E and dirPath = dirPath and dryRun = dryRun
      and hostname = hostname and path = path and d = d and err = err and seen = seen and st = st])
  case (no_certificate e info raw x st2)
  from no_certificate(8) have "only_trace (emit (FileRead path) (emit (Metric (CertFilesTotal_Inc dirPath)) st)) st2"
    by (rule parseLeafCertificate_frame)
  with no_certificate(9) show ?thesis by (simp add: only_trace_def)
next
  case (certificate e info raw leafCert st2 seen' st3)
  from certificate(8) have "only_trace (emit (FileRead path) (emit (Metric (CertFilesTotal_Inc dirPath)) st)) st2"
    by (rule parseLeafCertificate_frame)
  moreover from certificate(9) have "only_trace st2 st3" by (rule processCertificate_frame)
  ultimately show ?thesis using certificate(10) by (simp add: only_trace_def)
qed simp_all

lemma settled_emit [simp]: "settled (emit e st) p = settled st p"
  by (simp add: settled_def cache_hit_def split: sum.splits)

lemma only_trace_settled: "only_trace st st' \<Longrightarrow> settled st' p = settled st p"
  by (simp add: settled_def cache_hit_def only_trace_def split: sum.splits)

lemma walkFn_settled_mono:
  assumes "settled st p"
  shows "settled (snd (snd (walkFn L E dirPath dryRun hostname path d err (seen, st)))) p"
proof (cases rule: walkFn_cases [where L = L and E = E and dirPath = dirPath and dryRun = dryRun
      and hostname = hostname and path = path and d = d and err = err and seen = seen and st = st])
  case (no_certificate e info raw x st2)
  from no_certificate(8) have "only_trace (emit (FileRead path) (emit (Metric (CertFilesTotal_Inc dirPath)) st)) st2"
    by (rule parseLeafCertificate_frame)
  then have "settled st2 p" using assms by (simp add: only_trace_settled)
  with no_certificate(9) show ?thesis by simp
next
  case (certificate e info raw leafCert st2 seen' st3)
  from certificate(8) have "only_trace (emit (FileRead path) (emit (Metric (CertFilesTotal_Inc dirPath)) st)) st2"
    by (rule parseLeafCertificate_frame)
  moreover from certificate(9) have "only_trace st2 st3" by (rule processCertificate_frame)
  ultimately have o: "only_trace st st3" by (simp add: only_trace_def)
  then have s3: "settled st3 p" using assms by (simp add: only_trace_settled)
  from o have fs3: "fs st3 = fs st" by (simp add: only_trace_def)
  have "settled (SetEntryAtomic path (sha256_Sum256 L (Raw leafCert)) info st3) p"
  proof (cases "p = path")
    case True
    with certificate(5) fs3 show ?thesis
      by (simp add: settled_def cache_hit_def SetEntryAtomic_def split: sum.splits)
  next
    case False
    with s3 show ?thesis
      by (simp add: settled_def cache_hit_def SetEntryAtomic_def split: sum.splits)
  qed
  with certificate(10) show ?thesis by simp
qed (simp_all add: assms)

subsection \<open>The walk with the callback of the scan\<close>

lemma walkDir_walkFn_skipped:
  assumes "ToLower name = ''old'' \<or> ToLower name = ''working''"
  shows "walkDir L (walkFn L E dirPath dryRun hostname) path (DirEntry name True rerr entries) (seen, st) =
           (None, seen, emit (Log Info ''Skipping subdirectory'') st)"
  using assms by (simp add: walkFn_dir Let_def)

lemma walkDir_walkFn_dir:
  assumes "\<not> (ToLower name = ''old'' \<or> ToLower name = ''working'')"
  shows "walkDir L (walkFn L E dirPath dryRun hostname) path (DirEntry name True rerr entries) (seen, st) =
           walkDir_entries L (walkFn L E dirPath dryRun hostname) path entries (seen, st)"
  using assms by (cases rerr) (simp_all add: walkFn_dir walkFn_err Let_def)

lemma walkDir_walkFn_file:
  "walkDir L (walkFn L E dirPath dryRun hostname) path (DirEntry name False rerr entries) (seen, st) =
     (None, snd (walkFn L E dirPath dryRun hostname path (Some (DirEntry name False rerr entries)) None (seen, st)))"
proof -
  obtain x y where f: "walkFn L E dirPath dryRun hostname path (Some (DirEntry name False rerr entries)) None (seen, st) = (x, y)"
    by (metis surj_pair)
  have "x = None"
    using walkFn_file_no_error [of "DirEntry name False rerr entries" L E dirPath dryRun hostname path None seen st] f
    by simp
  with f show ?thesis by (simp add: Let_def)
qed

declare walkDir.simps [simp del] walkDir_entries.simps(2) [simp del]

lemma walkDir_entries_walkFn_no_error:
  "fst (walkDir_entries L (walkFn L E dirPath dryRun hostname) path ds s) = None"
  by (rule walkDir_no_error(2)) (rule walkFn_quiet)

lemma walkDir_walkFn_no_error:
  "fst (walkDir L (walkFn L E dirPath dryRun hostname) path d (seen, st)) = None"
proof (cases d)
  case (DirEntry name isDir rerr entries)
  show ?thesis
  proof (cases isDir)
    case False
    with DirEntry show ?thesis by (simp add: walkDir_walkFn_file)
  next
    case True
    show ?thesis
    proof (cases "ToLower name = ''old'' \<or> ToLower name = ''working''")
      case skip: True
      with True DirEntry show ?thesis by (simp add: walkDir_walkFn_skipped)
    next
      case noskip: False
      with True DirEntry show ?thesis
        by (simp add: walkDir_walkFn_dir walkDir_entries_walkFn_no_error)
    qed
  qed
qed

lemma walkDir_entries_walkFn_Cons:
  "walkDir_entries L (walkFn L E dirPath dryRun hostname) path (d1 # dirs) (seen, st) =
     walkDir_entries L (walkFn L E dirPath dryRun hostname) path dirs
       (snd (walkDir L (walkFn L E dirPath dryRun hostname) (filepath_Join L path (Name d1)) d1 (seen, st)))"
proof -
  obtain x y where w: "walkDir L (walkFn L E dirPath dryRun hostname) (filepath_Join L path (Name d1)) d1 (seen, st) = (x, y)"
    by (metis surj_pair)
  have "x = None"
    using walkDir_walkFn_no_error [of L E dirPath dryRun hostname "filepath_Join L path (Name d1)" d1 seen st] w
    by simp
  with w show ?thesis by (simp add: walkDir_entries.simps(2))
qed

lemma quiet_step_refl [simp]: "quiet_step s s"
  by (simp add: quiet_step_def)

lemma quiet_step_trans: "quiet_step a b \<Longrightarrow> quiet_step b c \<Longrightarrow> quiet_step a c"
  by (auto simp: quiet_step_def only_trace_def)

lemma no_read_event_simps [simp]:
  "no_read_event (Metric m)" "no_read_event (Log l msg)"
  "\<not> no_read_event (FileRead path)" "\<not> no_read_event (CertParse der)"
  by (simp_all add: no_read_event_def)

lemma walkFn_settled_quiet:
  assumes "\<not> IsDir e" "cert_ext (Name e) \<longrightarrow> settled st path"
  shows "quiet_step (seen, st) (snd (walkFn L E dirPath dryRun hostname path (Some e) None (seen, st)))"
proof (cases rule: walkFn_cases [where L = L and E = E and dirPath = dirPath and dryRun = dryRun
      and hostname = hostname and path = path and d = "Some e" and err = None and seen = seen and st = st])
  case (read_error e info x)
  with assms show ?thesis by (simp add: settled_def)
next
  case (no_certificate e info raw x st2)
  with assms show ?thesis by (simp add: settled_def)
next
  case (certificate e info raw leafCert st2 seen' st3)
  with assms show ?thesis by (simp add: settled_def)
qed (simp_all add: quiet_step_def)

lemma walk_settled_quiet:
  "(\<forall>(p, name) \<in> set (cert_files L path d). settled st p) \<Longrightarrow>
     quiet_step (seen, st) (snd (walkDir L (walkFn L E dirPath dryRun hostname) path d (seen, st)))"
  "(\<forall>(p, name) \<in> set (cert_files_entries L path ds). settled st p) \<Longrightarrow>
     quiet_step (seen, st) (snd (walkDir_entries L (walkFn L E dirPath dryRun hostname) path ds (seen, st)))"
proof (induction L path d and L path ds arbitrary: seen st and seen st rule: cert_files_cert_files_entries.induct)
  case (1 L path name isDir rerr entries)
  show ?case
  proof (cases isDir)
    case False
    have "cert_ext (Name (DirEntry name False rerr entries)) \<longrightarrow> settled st path"
      using "1.prems" False by simp
    then show ?thesis
      using False walkFn_settled_quiet [of "DirEntry name False rerr entries" st path seen L E dirPath dryRun hostname]
      by (simp add: walkDir_walkFn_file)
  next
    case True
    show ?thesis
    proof (cases "ToLower name = ''old'' \<or> ToLower name = ''working''")
      case skip: True
      with True show ?thesis by (simp add: walkDir_walkFn_skipped quiet_step_def)
    next
      case noskip: False
      with True "1.prems" have "\<forall>(p, name) \<in> set (cert_files_entries L path entries). settled st p"
        by simp
      with "1.IH" [OF True noskip] True noskip show ?thesis
        by (simp add: walkDir_walkFn_dir)
    qed
  qed
next
  case (2 L path)
  show ?case by simp
next
  case (3 L path d1 dirs)
  let ?fn = "walkFn L E dirPath dryRun hostname"
  obtain seen1 st1 where w: "snd (walkDir L ?fn (filepath_Join L path (Name d1)) d1 (seen, st)) = (seen1, st1)"
    by (metis surj_pair)
  have q1: "quiet_step (seen, st) (seen1, st1)"
    using "3.IH"(1) [of st seen] "3.prems" w by auto
  then have "only_trace st st1" by (simp add: quiet_step_def)
  then have "\<forall>(p, name) \<in> set (cert_files_entries L path dirs). settled st1 p"
    using "3.prems" by (auto simp: only_trace_settled)
  then have "quiet_step (seen1, st1) (snd (walkDir_entries L ?fn path dirs (seen1, st1)))"
    by (rule "3.IH"(2))
  with q1 w show ?case
    by (simp add: walkDir_entries_walkFn_Cons) (blast intro: quiet_step_trans)
qed

lemma keeps_settled_refl [simp]: "keeps_settled st st"
  by (simp add: keeps_settled_def)

lemma keeps_settled_trans: "keeps_settled a b \<Longrightarrow> keeps_settled b c \<Longrightarrow> keeps_settled a c"
  by (simp add: keeps_settled_def)

lemma walkFn_keeps_settled:
  "keeps_settled st (snd (snd (walkFn L E dirPath dryRun hostname path d err (seen, st))))"
  using walkFn_backoff_fs [of L E dirPath dryRun hostname path d err seen st]
    walkFn_settled_mono [of st _ L E dirPath dryRun hostname path d err seen]
  by (simp add: keeps_settled_def)

lemma parseLeafCertificate_yields:
  assumes "ReadFile fsys path = Inr raw"
    and "fst (parseLeafCertificate L raw (ToLower (Ext name)) path dirPath st) = Inl x"
  shows "\<not> yields_certificate L fsys path name"
proof (cases "ToLower (Ext name) = ''.der''")
  case True
  with assms show ?thesis
    by (auto simp: yields_certificate_def parseLeafCertificate_def ParseCertificate_def split: sum.splits)
next
  case False
  with assms(2) have "(case find (valid_block L) (pem_Decode_all L raw) of
              None \<Rightarrow> Inl (Error ''no valid certificate found'')
            | Some block \<Rightarrow> x509_ParseCertificate L (Bytes block)) = Inl x"
    by (simp add: parseLeafCertificate_def parseLeaf_loop_result)
  then have "find (valid_block L) (pem_Decode_all L raw) = None"
    by (auto simp: valid_block_def split: option.splits sum.splits dest!: find_Some_valid)
  with False assms(1) show ?thesis by (simp add: yields_certificate_def)
qed

lemma walkFn_settles:
  assumes "\<not> IsDir e" "cert_ext (Name e)" "yields_certificate L (fs st) path (Name e)"
  shows "settled (snd (snd (walkFn L E dirPath dryRun hostname path (Some e) None (seen, st)))) path"
proof (cases rule: walkFn_cases [where L = L and E = E and dirPath = dirPath and dryRun = dryRun
      and hostname = hostname and path = path and d = "Some e" and err = None and seen = seen and st = st])
  case unchanged
  with assms show ?thesis by simp
next
  case (skipdir e)
  with assms show ?thesis by simp
next
  case (stat_error e x)
  then show ?thesis by (simp add: settled_def)
next
  case (cache_hit e info)
  then show ?thesis by (simp add: settled_def cache_hit_def split: sum.splits)
next
  case (read_error e info x)
  with assms show ?thesis by (simp add: yields_certificate_def)
next
  case (no_certificate e' info raw x st2)
  then have "e' = e" and r: "ReadFile (fs st) path = Inr raw"
    and "fst (parseLeafCertificate L raw (ToLower (Ext (Name e))) path dirPath
            (emit (FileRead path) (emit (Metric (CertFilesTotal_Inc dirPath)) st))) = Inl x"
    by simp_all
  then have "\<not> yields_certificate L (fs st) path (Name e)"
    by (intro parseLeafCertificate_yields [OF r])
  with assms show ?thesis by simp
next
  case (certificate e' info raw leafCert st2 seen' st3)
  from certificate(8) have "only_trace (emit (FileRead path) (emit (Metric (CertFilesTotal_Inc dirPath)) st)) st2"
    by (rule parseLeafCertificate_frame)
  moreover from certificate(9) have "only_trace st2 st3" by (rule processCertificate_frame)
  ultimately have "fs st3 = fs st" by (simp add: only_trace_def)
  with certificate(5,10) show ?thesis
    by (simp add: settled_def cache_hit_def SetEntryAtomic_def)
qed

lemma walk_keeps_settled:
  "keeps_settled st (snd (snd (walkDir L (walkFn L E dirPath dryRun hostname) path d (seen, st))))"
  "keeps_settled st (snd (snd (walkDir_entries L (walkFn L E dirPath dryRun hostname) path ds (seen, st))))"
proof -
  have step: "\<And>path d err s. keeps_settled st (snd s) \<Longrightarrow>
      keeps_settled st (snd (snd (walkFn L E dirPath dryRun hostname path d err s)))"
  proof -
    fix path d err and s :: "(string \<rightharpoonup> int) \<times> world"
    assume a: "keeps_settled st (snd s)"
    have "keeps_settled (snd s) (snd (snd (walkFn L E dirPath dryRun hostname path d err (fst s, snd s))))"
      by (rule walkFn_keeps_settled)
    with a show "keeps_settled st (snd (snd (walkFn L E dirPath dryRun hostname path d err s)))"
      by (auto intro: keeps_settled_trans)
  qed
  show "keeps_settled st (snd (snd (walkDir L (walkFn L E dirPath dryRun hostname) path d (seen, st))))"
    using walkDir_invariant(1) [where I = "\<lambda>s. keeps_settled st (snd s)" and s = "(seen, st)", OF step]
    by simp
  show "keeps_settled st (snd (snd (walkDir_entries L (walkFn L E dirPath dryRun hostname) path ds (seen, st))))"
    using walkDir_invariant(2) [where I = "\<lambda>s. keeps_settled st (snd s)" and s = "(seen, st)", OF step]
    by simp
qed

lemma walk_settles:
  "\<forall>(p, name) \<in> set (cert_files L path d). yields_certificate L (fs st) p name \<longrightarrow>
     settled (snd (snd (walkDir L (walkFn L E dirPath dryRun hostname) path d (seen, st)))) p"
  "\<forall>(p, name) \<in> set (cert_files_entries L path ds). yields_certificate L (fs st) p name \<longrightarrow>
     settled (snd (snd (walkDir_entries L (walkFn L E dirPath dryRun hostname) path ds (seen, st)))) p"
proof (induction L path d and L path ds arbitrary: seen st and seen st rule: cert_files_cert_files_entries.induct)
  case (1 L path name isDir rerr entries)
  show ?case
  proof (cases isDir)
    case False
    then show ?thesis
      using walkFn_settles [of "DirEntry name False rerr entries" L st path E dirPath dryRun hostname seen]
      by (simp add: walkDir_walkFn_file)
  next
    case True
    show ?thesis
    proof (cases "ToLower name = ''old'' \<or> ToLower name = ''working''")
      case skip: True
      with True show ?thesis by simp
    next
      case noskip: False
      with "1.IH" [OF True noskip, of st seen] True show ?thesis
        by (simp add: walkDir_walkFn_dir)
    qed
  qed
next
  case (2 L path)
  show ?case by simp
next
  case (3 L path d1 dirs)
  let ?fn = "walkFn L E dirPath dryRun hostname"
  obtain seen1 st1 where w: "snd (walkDir L ?fn (filepath_Join L path (Name d1)) d1 (seen, st)) = (seen1, st1)"
    by (metis surj_pair)
  have k1: "keeps_settled st st1"
    using walk_keeps_settled(1) [of st L E dirPath dryRun hostname "filepath_Join L path (Name d1)" d1 seen] w
    by simp
  have k2: "keeps_settled st1 (snd (snd (walkDir_entries L ?fn path dirs (seen1, st1))))"
    by (rule walk_keeps_settled(2))
  have a1: "\<forall>(p, name) \<in> set (cert_files L (filepath_Join L path (Name d1)) d1).
              yields_certificate L (fs st) p name \<longrightarrow> settled st1 p"
    using "3.IH"(1) [of st seen] w by simp
  have a2: "\<forall>(p, name) \<in> set (cert_files_entries L path dirs).
              yields_certificate L (fs st1) p name \<longrightarrow>
              settled (snd (snd (walkDir_entries L ?fn path dirs (seen1, st1)))) p"
    by (rule "3.IH"(2))
  from k1 have fs1: "fs st1 = fs st" by (simp add: keeps_settled_def)
  show ?case
    using a1 a2 k2 w fs1
    by (auto simp: walkDir_entries_walkFn_Cons keeps_settled_def)
qed

subsection \<open>ProcessDirectory\<close>

lemma WalkDir_walkFn:
  "WalkDir L fsys root (walkFn L E dirPath dryRun hostname) (seen, st) =
     (None, case Lstat fsys root of
              Inl err \<Rightarrow> (seen, st)
            | Inr d \<Rightarrow> snd (walkDir L (walkFn L E dirPath dryRun hostname) root d (seen, st)))"
proof (cases "Lstat fsys root")
  case (Inl err)
  then show ?thesis by (simp add: WalkDir_def walkFn_err)
next
  case (Inr d)
  obtain x y where w: "walkDir L (walkFn L E dirPath dryRun hostname) root d (seen, st) = (x, y)"
    by (metis surj_pair)
  have "x = None"
    using walkDir_walkFn_no_error [of L E dirPath dryRun hostname root d seen st] w by simp
  with Inr w show ?thesis by (simp add: WalkDir_def)
qed

lemma shouldSkipScan_fst_emit:
  "fst (shouldSkipScan now_t dir (emit e st)) = fst (shouldSkipScan now_t dir st)"
  by (simp add: shouldSkipScan_def split: option.splits)

lemma entry_state_frame:
  "cache (entry_state E dirPath dryRun st) = cache st"
  "fs (entry_state E dirPath dryRun st) = fs st"
  "settled (entry_state E dirPath dryRun st) p = settled st p"
  "all_events no_read_event (entry_state E dirPath dryRun st) = all_events no_read_event st"
  by (simp_all add: entry_state_def shouldSkipScan_def settled_def cache_hit_def
        split: option.splits sum.splits)

lemma ProcessDirectory_skipped:
  assumes "fst (shouldSkipScan (now E) dirPath st)"
  shows "ProcessDirectory L E dirPath dryRun st =
           (None, emit (Log Warn ''Skipping scan due to backoff'') (entry_state E dirPath dryRun st))"
proof -
  let ?st1 = "if \<not> dryRun \<and> \<not> shouldWriteMetrics E
             then emit (Log Info ''Dry-run mode active, metrics writes are disabled'') st else st"
  obtain b st2 where sk: "shouldSkipScan (now E) dirPath ?st1 = (b, st2)" by (metis surj_pair)
  have "fst (shouldSkipScan (now E) dirPath ?st1) = fst (shouldSkipScan (now E) dirPath st)"
    by (simp add: shouldSkipScan_fst_emit)
  with sk assms(1) have b: "b" by simp
  have st2: "st2 = entry_state E dirPath dryRun st" using sk by (simp add: entry_state_def)
  with sk b show ?thesis
    by (simp add: ProcessDirectory_def)
qed

lemma ProcessDirectory_no_directory:
  assumes "\<not> fst (shouldSkipScan (now E) dirPath st)" "\<not> root_is_dir st dirPath"
  shows "ProcessDirectory L E dirPath dryRun st =
           (None, deferred_ScanDuration E dirPath
                    (registerScanFailure (now E) (jitter E) dirPath
                       (emit (Log Warn ''Skipping non-directory'') (entry_state E dirPath dryRun st))))"
proof -
  let ?st1 = "if \<not> dryRun \<and> \<not> shouldWriteMetrics E
             then emit (Log Info ''Dry-run mode active, metrics writes are disabled'') st else st"
  obtain b st2 where sk: "shouldSkipScan (now E) dirPath ?st1 = (b, st2)" by (metis surj_pair)
  have "fst (shouldSkipScan (now E) dirPath ?st1) = fst (shouldSkipScan (now E) dirPath st)"
    by (simp add: shouldSkipScan_fst_emit)
  with sk assms(1) have b: "\<not> b" by simp
  have st2: "st2 = entry_state E dirPath dryRun st" using sk by (simp add: entry_state_def)
  have "fs st2 = fs st" unfolding st2 by (rule entry_state_frame)
  with assms(2) have "case Stat (fs st2) dirPath of Inl err \<Rightarrow> True | Inr info \<Rightarrow> \<not> info_IsDir info"
    by (simp add: root_is_dir_def split: sum.splits)
  with sk b st2 show ?thesis
    by (simp add: ProcessDirectory_def)
qed

lemma ProcessDirectory_walk:
  assumes "\<not> fst (shouldSkipScan (now E) dirPath st)" "root_is_dir st dirPath"
  shows "ProcessDirectory L E dirPath dryRun st =
           (case (case Lstat (fs st) dirPath of
                    Inl err \<Rightarrow> (Map.empty, entry_state E dirPath dryRun st)
                  | Inr d \<Rightarrow> snd (walkDir L (walkFn L E dirPath dryRun (Hostname E)) dirPath d
                                    (Map.empty, entry_state E dirPath dryRun st))) of
              (seen, st3) \<Rightarrow>
                (Some seen, deferred_ScanDuration E dirPath (deferred_LastScan E dirPath dryRun st3)))"
proof -
  let ?st1 = "if \<not> dryRun \<and> \<not> shouldWriteMetrics E
             then emit (Log Info ''Dry-run mode active, metrics writes are disabled'') st else st"
  obtain b st2 where sk: "shouldSkipScan (now E) dirPath ?st1 = (b, st2)" by (metis surj_pair)
  have "fst (shouldSkipScan (now E) dirPath ?st1) = fst (shouldSkipScan (now E) dirPath st)"
    by (simp add: shouldSkipScan_fst_emit)
  with sk assms(1) have b: "\<not> b" by simp
  have st2: "st2 = entry_state E dirPath dryRun st" using sk by (simp add: entry_state_def)
  have fs2: "fs st2 = fs st" unfolding st2 by (rule entry_state_frame)
  with assms(2) have "\<not> (case Stat (fs st2) dirPath of Inl err \<Rightarrow> True | Inr info \<Rightarrow> \<not> info_IsDir info)"
    by (simp add: root_is_dir_def split: sum.splits)
  with sk b st2 fs2 show ?thesis
    by (simp add: ProcessDirectory_def WalkDir_walkFn Let_def split: prod.splits)
qed

lemma deferred_frame [simp]:
  "only_trace st (deferred_ScanDuration E dirPath st') = only_trace st st'"
  "only_trace st (deferred_LastScan E dirPath dryRun st') = only_trace st st'"
  by (simp_all add: deferred_ScanDuration_def deferred_LastScan_def)

lemma deferred_no_read [simp]:
  "all_events no_read_event (deferred_ScanDuration E dirPath st) = all_events no_read_event st"
  "all_events no_read_event (deferred_LastScan E dirPath dryRun st) = all_events no_read_event st"
  by (simp_all add: deferred_ScanDuration_def deferred_LastScan_def)

lemma deferred_settled [simp]:
  "settled (deferred_ScanDuration E dirPath st) p = settled st p"
  "settled (deferred_LastScan E dirPath dryRun st) p = settled st p"
  by (simp_all add: deferred_ScanDuration_def deferred_LastScan_def)

lemma deferred_fields [simp]:
  "fs (deferred_ScanDuration E dirPath st) = fs st"
  "fs (deferred_LastScan E dirPath dryRun st) = fs st"
  "cache (deferred_ScanDuration E dirPath st) = cache st"
  "cache (deferred_LastScan E dirPath dryRun st) = cache st"
  "backoff (deferred_ScanDuration E dirPath st) = backoff st"
  "backoff (deferred_LastScan E dirPath dryRun st) = backoff st"
  by (simp_all add: deferred_ScanDuration_def deferred_LastScan_def)

lemma registerScanFailure_fields [simp]:
  "fs (registerScanFailure now_t j dir st) = fs st"
  "cache (registerScanFailure now_t j dir st) = cache st"
  "all_events no_read_event (registerScanFailure now_t j dir st) = all_events no_read_event st"
  by (simp_all add: registerScanFailure_def Let_def)

text \<open>A walk never registers a failure: only a root that is no directory does.\<close>

lemma ProcessDirectory_walk_registers_no_failure:
  assumes "root_is_dir st dirPath"
  shows "backoff (snd (ProcessDirectory L E dirPath dryRun st)) = backoff (entry_state E dirPath dryRun st)"
proof (cases "fst (shouldSkipScan (now E) dirPath st)")
  case True
  then show ?thesis by (simp add: ProcessDirectory_skipped)
next
  case False
  let ?st2 = "entry_state E dirPath dryRun st"
  let ?fn = "walkFn L E dirPath dryRun (Hostname E)"
  show ?thesis
  proof (cases "Lstat (fs st) dirPath")
    case (Inl err)
    with False assms show ?thesis by (simp add: ProcessDirectory_walk)
  next
    case (Inr d)
    have "backoff (snd (snd (walkDir L ?fn dirPath d (Map.empty, ?st2)))) = backoff ?st2"
      using walk_keeps_settled(1) [of ?st2 L E dirPath dryRun "Hostname E" dirPath d Map.empty]
      by (simp add: keeps_settled_def)
    with Inr False assms show ?thesis
      by (auto simp: ProcessDirectory_walk split: prod.splits)
  qed
qed

text \<open>A pass over a tree whose certificate files are settled.\<close>

lemma ProcessDirectory_settled_quiet:
  assumes "\<forall>(p, name) \<in> set (cert_files_root L (fs st) dirPath). settled st p"
    and "all_events no_read_event st"
  shows "all_events no_read_event (snd (ProcessDirectory L E dirPath dryRun st)) \<and>
         cache (snd (ProcessDirectory L E dirPath dryRun st)) = cache st"
proof (cases "fst (shouldSkipScan (now E) dirPath st)")
  case True
  then show ?thesis using assms(2) by (simp add: ProcessDirectory_skipped entry_state_frame)
next
  case False
  show ?thesis
  proof (cases "root_is_dir st dirPath")
    case nodir: False
    with False show ?thesis using assms(2)
      by (simp add: ProcessDirectory_no_directory entry_state_frame)
  next
    case True
    let ?st2 = "entry_state E dirPath dryRun st"
    let ?fn = "walkFn L E dirPath dryRun (Hostname E)"
    have i2: "all_events no_read_event ?st2" using assms(2) by (simp add: entry_state_frame)
    show ?thesis
    proof (cases "Lstat (fs st) dirPath")
      case (Inl err)
      with False True i2 show ?thesis
        by (simp add: ProcessDirectory_walk entry_state_frame)
    next
      case (Inr d)
      with assms(1) have "\<forall>(p, name) \<in> set (cert_files L dirPath d). settled ?st2 p"
        by (simp add: cert_files_root_def entry_state_frame)
      then have "quiet_step (Map.empty, ?st2) (snd (walkDir L ?fn dirPath d (Map.empty, ?st2)))"
        by (rule walk_settled_quiet(1))
      with i2 have "all_events no_read_event (snd (snd (walkDir L ?fn dirPath d (Map.empty, ?st2))))"
        and "cache (snd (snd (walkDir L ?fn dirPath d (Map.empty, ?st2)))) = cache ?st2"
        by (simp_all add: quiet_step_def only_trace_def)
      with False True Inr show ?thesis
        by (auto simp: ProcessDirectory_walk entry_state_frame split: prod.splits)
    qed
  qed
qed

text \<open>A pass that walks settles every certificate file that yields a certificate.\<close>

lemma ProcessDirectory_settles:
  assumes "fst (ProcessDirectory L E dirPath dryRun st) \<noteq> None"
    and "\<forall>(p, name) \<in> set (cert_files_root L (fs st) dirPath). yields_certificate L (fs st) p name"
  shows "fs (snd (ProcessDirectory L E dirPath dryRun st)) = fs st \<and>
         (\<forall>(p, name) \<in> set (cert_files_root L (fs st) dirPath).
             settled (snd (ProcessDirectory L E dirPath dryRun st)) p)"
proof -
  have ns: "\<not> fst (shouldSkipScan (now E) dirPath st)"
  proof
    assume "fst (shouldSkipScan (now E) dirPath st)"
    then have "fst (ProcessDirectory L E dirPath dryRun st) = None"
      by (simp add: ProcessDirectory_skipped)
    with assms(1) show False by simp
  qed
  have rd: "root_is_dir st dirPath"
  proof (rule ccontr)
    assume "\<not> root_is_dir st dirPath"
    with ns have "fst (ProcessDirectory L E dirPath dryRun st) = None"
      by (simp add: ProcessDirectory_no_directory)
    with assms(1) show False by simp
  qed
  let ?st2 = "entry_state E dirPath dryRun st"
  let ?fn = "walkFn L E dirPath dryRun (Hostname E)"
  show ?thesis
  proof (cases "Lstat (fs st) dirPath")
    case (Inl err)
    with ns rd show ?thesis
      by (simp add: ProcessDirectory_walk entry_state_frame cert_files_root_def)
  next
    case (Inr d)
    have "\<forall>(p, name) \<in> set (cert_files L dirPath d). yields_certificate L (fs ?st2) p name \<longrightarrow>
            settled (snd (snd (walkDir L ?fn dirPath d (Map.empty, ?st2)))) p"
      by (rule walk_settles(1))
    moreover have "keeps_settled ?st2 (snd (snd (walkDir L ?fn dirPath d (Map.empty, ?st2))))"
      by (rule walk_keeps_settled(1))
    ultimately show ?thesis
      using ns rd Inr assms(2)
      by (auto simp: ProcessDirectory_walk entry_state_frame cert_files_root_def keeps_settled_def
               split: prod.splits)
  qed
qed

text \<open>
  The guard at work: the expiration gauge of \<^verbatim>\<open>a.pem\<close> is written by a live scan of
  \<^verbatim>\<open>/certs\<close> and not by a dry run.
\<close>
lemma scan_expiration_gauge:
  "Metric (CertExpiration_Set ''digicert test root'' ''a.pem'' 4000000000)
     \<in> set (trace (snd (ProcessDirectory example_stdlib example_env ''/certs'' False scan_world))) \<and>
   Metric (CertExpiration_Set ''digicert test root'' ''a.pem'' 4000000000)
     \<notin> set (trace (snd (ProcessDirectory example_stdlib example_env ''/certs'' True scan_world)))"
proof -
  have e: "scan_world\<lparr>trace := []\<rparr> = scan_world"
    by (simp add: scan_world_def example_world_def)
  have "\<not> unguarded (CertExpiration_Set ''digicert test root'' ''a.pem'' 4000000000)" by simp
  then have "Metric (CertExpiration_Set ''digicert test root'' ''a.pem'' 4000000000)
     \<notin> set (trace (snd (ProcessDirectory example_stdlib example_env ''/certs'' True scan_world)))"
    using ProcessDirectory_gate_closed [of True example_env example_stdlib "''/certs''" scan_world]
    unfolding e by blast
  moreover have "Metric (CertExpiration_Set ''digicert test root'' ''a.pem'' 4000000000)
     \<in> set (trace (snd (ProcessDirectory example_stdlib example_env ''/certs'' False scan_world)))"
    by (simp add: scan_defs2 string_defs walkDir.simps walkDir_entries.simps del: power_numeral)
  ultimately show ?thesis by simp
qed

lemma scan_result_live:
  "fst (ProcessDirectory example_stdlib example_env ''/certs'' False scan_world) = Some [example_key \<mapsto> 1]"
  by (simp add: scan_defs2 string_defs walkDir.simps walkDir_entries.simps del: power_numeral)

text \<open>
  C2 fails on the code. In \<^verbatim>\<open>/certs\<close> the subdirectory \<^verbatim>\<open>sub\<close> cannot be read. The callback
  returns nil for the error that the walk reports, the walk returns no error, and no
  backoff failure is registered for \<^verbatim>\<open>/certs\<close>; the results gathered are returned.
\<close>
theorem ProcessDirectory_walk_error_unregistered:
  "Lstat (fs scan_world) ''/certs'' =
     Inr (DirEntry ''certs'' True None
           [DirEntry ''a.pem'' False None [], DirEntry ''key.pem'' False None [],
            DirEntry ''sub'' True (Some (Error ''permission denied'')) []]) \<and>
   fst (ProcessDirectory example_stdlib example_env ''/certs'' False scan_world) = Some [example_key \<mapsto> 1] \<and>
   backoff (snd (ProcessDirectory example_stdlib example_env ''/certs'' False scan_world)) ''/certs'' = None"
proof -
  have "root_is_dir scan_world ''/certs''" by (simp add: root_is_dir_def)
  then have "backoff (snd (ProcessDirectory example_stdlib example_env ''/certs'' False scan_world))
             = backoff (entry_state example_env ''/certs'' False scan_world)"
    by (rule ProcessDirectory_walk_registers_no_failure)
  also have "\<dots> = Map.empty"
    by (simp add: entry_state_def shouldSkipScan_def shouldWriteMetrics_def)
  finally show ?thesis by (simp add: scan_result_live)
qed

lemma settled_trace_update [simp]: "settled (st\<lparr>trace := t\<rparr>) p = settled st p"
  by (simp add: settled_def cache_hit_def split: sum.splits)

text \<open>
  C3, as amended. A certificate file whose cached entry has the modification time and the
  size of its stat is skipped: the callback only counts the file and logs, it does not
  read, parse or touch the cache. Hence, after a pass that walked a tree in which every
  certificate file yields a leaf certificate, a second pass over the unchanged tree reads
  no file, parses nothing and leaves the cache as it is.
\<close>
theorem ProcessDirectory_repeated_pass:
  assumes "fst (ProcessDirectory L E1 dirPath dryRun1 st) \<noteq> None"
    and "\<forall>(path, name) \<in> set (cert_files_root L (fs st) dirPath). yields_certificate L (fs st) path name"
  shows "(\<forall>E dryRun path e info seen st'.
            \<not> IsDir e \<and> cert_ext (Name e) \<and> Stat (fs st') path = Inr info \<and> cache_hit st' path info \<longrightarrow>
            walkFn L E dirPath dryRun (Hostname E) path (Some e) None (seen, st') =
              (None, seen, emit (Log Debug ''Skipping file with unchanged ModTime and Size'')
                             (emit (Metric (CertFilesTotal_Inc dirPath)) st')))
       \<and> fs (snd (ProcessDirectory L E1 dirPath dryRun1 st)) = fs st
       \<and> (\<forall>path. FileRead path \<notin> set (trace (snd (ProcessDirectory L E2 dirPath dryRun2
                      ((snd (ProcessDirectory L E1 dirPath dryRun1 st))\<lparr>trace := []\<rparr>)))))
       \<and> (\<forall>der. CertParse der \<notin> set (trace (snd (ProcessDirectory L E2 dirPath dryRun2
                      ((snd (ProcessDirectory L E1 dirPath dryRun1 st))\<lparr>trace := []\<rparr>)))))
       \<and> cache (snd (ProcessDirectory L E2 dirPath dryRun2
                      ((snd (ProcessDirectory L E1 dirPath dryRun1 st))\<lparr>trace := []\<rparr>)))
           = cache (snd (ProcessDirectory L E1 dirPath dryRun1 st))"
proof -
  let ?st1 = "snd (ProcessDirectory L E1 dirPath dryRun1 st)"
  let ?st1' = "?st1\<lparr>trace := []\<rparr>"
  have per_file: "\<forall>E dryRun path e info seen st'.
            \<not> IsDir e \<and> cert_ext (Name e) \<and> Stat (fs st') path = Inr info \<and> cache_hit st' path info \<longrightarrow>
            walkFn L E dirPath dryRun (Hostname E) path (Some e) None (seen, st') =
              (None, seen, emit (Log Debug ''Skipping file with unchanged ModTime and Size'')
                             (emit (Metric (CertFilesTotal_Inc dirPath)) st'))"
    by (auto intro: walkFn_cache_hit)
  have s1: "fs ?st1 = fs st"
    and s2: "\<forall>(p, name) \<in> set (cert_files_root L (fs st) dirPath). settled ?st1 p"
    using ProcessDirectory_settles [OF assms] by simp_all
  have "\<forall>(p, name) \<in> set (cert_files_root L (fs ?st1') dirPath). settled ?st1' p"
    using s1 s2 by simp
  moreover have "all_events no_read_event ?st1'" by (simp add: all_events_def)
  ultimately have q: "all_events no_read_event (snd (ProcessDirectory L E2 dirPath dryRun2 ?st1')) \<and>
         cache (snd (ProcessDirectory L E2 dirPath dryRun2 ?st1')) = cache ?st1'"
    by (rule ProcessDirectory_settled_quiet)
  then have "\<forall>path. FileRead path \<notin> set (trace (snd (ProcessDirectory L E2 dirPath dryRun2 ?st1')))"
    and "\<forall>der. CertParse der \<notin> set (trace (snd (ProcessDirectory L E2 dirPath dryRun2 ?st1')))"
    by (auto simp: all_events_def)
  with per_file s1 q show ?thesis by simp
qed

lemma clean_world_fields [simp]:
  "fs clean_world = clean_fs" "backoff clean_world = Map.empty" "trace clean_world = []"
  "cache clean_world = New ''/var/lib/cert-monitor/cache.json''"
  by (simp_all add: clean_world_def example_world_def)

lemma clean_fs_fields [simp]:
  "Stat clean_fs = Stat scan_fs" "ReadFile clean_fs = ReadFile scan_fs"
  "Lstat clean_fs ''/certs'' = Inr (DirEntry ''certs'' True None
                                        [DirEntry ''a.pem'' False None [],
                                         DirEntry ''notes.txt'' False None [],
                                         DirEntry ''old'' True None [DirEntry ''key.pem'' False None []]])"
  by (simp_all add: clean_fs_def)

lemma clean_cert_files:
  "cert_files_root example_stdlib clean_fs ''/certs'' = [(''/certs/a.pem'', ''a.pem'')]"
  by (simp add: cert_files_root_def string_defs)

lemma clean_yields: "yields_certificate example_stdlib clean_fs ''/certs/a.pem'' ''a.pem''"
  by (simp add: yields_certificate_def string_defs example_blocks_def valid_block_def)

lemma clean_first_pass:
  "fst (ProcessDirectory example_stdlib example_env ''/certs'' False clean_world) = Some [example_key \<mapsto> 1]"
  by (simp add: scan_defs2 string_defs walkDir.simps walkDir_entries.simps del: power_numeral)

lemma clean_first_pass_reads:
  "FileRead ''/certs/a.pem'' \<in> set (trace (snd (ProcessDirectory example_stdlib example_env ''/certs'' False clean_world)))"
  by (simp add: scan_defs2 string_defs walkDir.simps walkDir_entries.simps del: power_numeral)

text \<open>
  \<^verbatim>\<open>a.pem\<close> is read by the first pass over the clean directory and not by the second.
\<close>
theorem ProcessDirectory_repeated_pass_witness:
  "fst (ProcessDirectory example_stdlib example_env ''/certs'' False clean_world) = Some [example_key \<mapsto> 1] \<and>
   cert_files_root example_stdlib (fs clean_world) ''/certs'' = [(''/certs/a.pem'', ''a.pem'')] \<and>
   yields_certificate example_stdlib (fs clean_world) ''/certs/a.pem'' ''a.pem'' \<and>
   FileRead ''/certs/a.pem''
     \<in> set (trace (snd (ProcessDirectory example_stdlib example_env ''/certs'' False clean_world))) \<and>
   FileRead ''/certs/a.pem''
     \<notin> set (trace (snd (ProcessDirectory example_stdlib example_env ''/certs'' False
          ((snd (ProcessDirectory example_stdlib example_env ''/certs'' False clean_world))\<lparr>trace := []\<rparr>)))) \<and>
   CertParse [1]
     \<notin> set (trace (snd (ProcessDirectory example_stdlib example_env ''/certs'' False
          ((snd (ProcessDirectory example_stdlib example_env ''/certs'' False clean_world))\<lparr>trace := []\<rparr>))))"
proof -
  have h1: "fst (ProcessDirectory example_stdlib example_env ''/certs'' False clean_world) \<noteq> None"
    by (simp add: clean_first_pass)
  have h2: "\<forall>(path, name) \<in> set (cert_files_root example_stdlib (fs clean_world) ''/certs'').
              yields_certificate example_stdlib (fs clean_world) path name"
    by (simp add: clean_cert_files clean_yields)
  show ?thesis
    using ProcessDirectory_repeated_pass [OF h1 h2, of example_env False]
    by (simp add: clean_first_pass clean_cert_files clean_yields clean_first_pass_reads)
qed

text \<open>
  C3 as stated fails: \<^verbatim>\<open>key.pem\<close> holds no certificate, is never cached, and is read again
  by the second pass over the unchanged directory.
\<close>
theorem ProcessDirectory_repeated_pass_counterexample:
  "FileRead ''/certs/key.pem''
     \<in> set (trace (snd (ProcessDirectory example_stdlib example_env ''/certs'' False
          ((snd (ProcessDirectory example_stdlib example_env ''/certs'' False scan_world))\<lparr>trace := []\<rparr>))))"
  by (simp add: scan_defs2 string_defs walkDir.simps walkDir_entries.simps cache_hit_def del: power_numeral)

end
